theory Spec2Isabelle
  imports Complex_Main
begin

section \<open>The sequencer of MelodySculptorGame.js\<close>

text \<open>
  The component keeps one mutable bag of engine objects (\<open>gameRefs\<close>) and drives the
  sequencer from \<open>animate\<close>, which runs once per animation frame. The model follows
  \<open>placeInstrument\<close>, \<open>playSound\<close> and \<open>animate\<close> block by block. JavaScript numbers
  are modelled as exact reals, except in the hit test of line 301, whose subtraction is
  rounded as binary64 rounds it. The wand only takes the values \<open>-100 + k / 2\<close>, on which
  the binary64 addition is exact; the interpolated colours and scales are idealised.

  Scene construction, camera controls, the particle cloud and \<open>renderer.render\<close> only
  draw; nothing of the sequencer reads them back, and they are left out. A tick of the
  sequencer is one call of \<open>animate\<close>, one frame.
\<close>

subsection \<open>Library values: vectors and colours\<close>

record vector3 =
  v_x :: real
  v_y :: real
  v_z :: real

record color =
  c_r :: real
  c_g :: real
  c_b :: real

text \<open>\<open>Vector3.lerp(v, alpha)\<close> and \<open>Color.lerp(c, alpha)\<close>: each component moves by
  \<open>(target - value) * alpha\<close>.\<close>

definition Vector3_lerp :: "vector3 \<Rightarrow> vector3 \<Rightarrow> real \<Rightarrow> vector3" where
  "Vector3_lerp this v alpha =
     \<lparr>v_x = v_x this + (v_x v - v_x this) * alpha,
      v_y = v_y this + (v_y v - v_y this) * alpha,
      v_z = v_z this + (v_z v - v_z this) * alpha\<rparr>"

definition Color_lerp :: "color \<Rightarrow> color \<Rightarrow> real \<Rightarrow> color" where
  "Color_lerp this c alpha =
     \<lparr>c_r = c_r this + (c_r c - c_r this) * alpha,
      c_g = c_g this + (c_g c - c_g this) * alpha,
      c_b = c_b this + (c_b c - c_b this) * alpha\<rparr>"

text \<open>
  The conversion between a colour and its 24-bit hex code belongs to three.js, which the
  page loads at run time. It is a parameter of the model: \<open>setHex\<close> is
  \<open>new THREE.Color(hex)\<close> and \<open>color.set(hex)\<close>, \<open>getHex\<close> is \<open>color.getHex()\<close>.
\<close>

record three =
  setHex :: "nat \<Rightarrow> color"
  getHex :: "color \<Rightarrow> nat"

text \<open>
  The conversion of three.js r160, the release the page loads: colour management is on,
  colours are kept in linear sRGB and hex codes are sRGB. \<open>setHex\<close> splits the code into
  bytes, divides by 255 and decodes each channel with \<open>SRGBToLinear\<close>; \<open>getHex\<close>
  encodes each channel with \<open>LinearToSRGB\<close> and packs
  \<open>Math.round(clamp(c * 255, 0, 255))\<close>. \<open>Math.pow\<close> on a positive base is \<open>powr\<close>.
\<close>

definition SRGBToLinear :: "real \<Rightarrow> real" where
  "SRGBToLinear c =
     (if c < 0.04045 then c * 0.0773993808
      else (c * 0.9478672986 + 0.0521327014) powr 2.4)"

definition LinearToSRGB :: "real \<Rightarrow> real" where
  "LinearToSRGB c =
     (if c < 0.0031308 then c * 12.92
      else 1.055 * (c powr 0.41666) - 0.055)"

definition channelByte :: "real \<Rightarrow> nat" where
  "channelByte c = nat \<lfloor>max 0 (min 255 (LinearToSRGB c * 255)) + 1 / 2\<rfloor>"

definition Color_setHex :: "nat \<Rightarrow> color" where
  "Color_setHex h =
     \<lparr>c_r = SRGBToLinear (real ((h div 65536) mod 256) / 255),
      c_g = SRGBToLinear (real ((h div 256) mod 256) / 255),
      c_b = SRGBToLinear (real (h mod 256) / 255)\<rparr>"

definition Color_getHex :: "color \<Rightarrow> nat" where
  "Color_getHex c = channelByte (c_r c) * 65536 + channelByte (c_g c) * 256 + channelByte (c_b c)"

definition three160 :: three where
  "three160 = \<lparr>setHex = Color_setHex, getHex = Color_getHex\<rparr>"

text \<open>The red channel of the kick's emissive colour \<open>0x8B0000\<close> as the library stores
  it.\<close>

definition kickRed :: real where
  "kickRed = SRGBToLinear (139 / 255)"

subsection \<open>Nodes, engine objects, the page\<close>

text \<open>A placed mesh: the fields of \<open>THREE.Mesh\<close> the component touches, and its
  \<open>userData\<close> (\<open>utype\<close> is \<open>userData.type\<close>).\<close>

record node =
  position :: vector3
  rotation_y :: real
  scale :: vector3
  emissive :: color
  castShadow :: bool
  utype :: string
  originalEmissive :: nat
  hasBeenTriggered :: bool

type_synonym buffer = nat

text \<open>
  \<open>gameRefs.current\<close>. \<open>wandGroup\<close> holds \<open>wandGroup.position.x\<close>, \<open>None\<close> while the
  field is \<open>null\<close>. \<open>audioContext\<close> holds the buffers of the sources started on the
  context so far, \<open>None\<close> while the field is \<open>null\<close>. \<open>rendering\<close> says that
  \<open>clock\<close>, \<open>scene\<close>, \<open>camera\<close> and \<open>renderer\<close> are all assigned.
\<close>

record gameRefs =
  wandGroup :: "real option"
  soundNodes :: "node list"
  soundBuffers :: "string \<rightharpoonup> buffer"
  audioContext :: "buffer list option"
  rendering :: bool

text \<open>The class lists of the three buttons the effect looks up by id; \<open>None\<close> when
  \<open>getElementById\<close> finds no element.\<close>

record dom =
  pluck_btn :: "string list option"
  kick_btn :: "string list option"
  play_stop_btn :: "string list option"

text \<open>\<open>el?.classList.contains(c)\<close> as a condition: \<open>undefined\<close> is falsy.\<close>

definition classContains :: "string list option \<Rightarrow> string \<Rightarrow> bool" where
  "classContains el c = (case el of None \<Rightarrow> False | Some cl \<Rightarrow> c \<in> set cl)"

subsection \<open>placeInstrument\<close>

datatype error = TypeError

definition planeSize :: real where
  "planeSize = 200"

text \<open>Lines 224-226: the type read from the page.\<close>

definition currentType :: "dom \<Rightarrow> string" where
  "currentType d =
     (let t0 = ''synth'';
          t1 = (if classContains (pluck_btn d) ''active'' then ''pluck'' else t0);
          t2 = (if classContains (kick_btn d) ''active'' then ''kick'' else t1)
      in t2)"

text \<open>\<open>new THREE.Mesh(geo, mat)\<close> for a material with the given emissive hex: at the
  origin, unrotated, unit scale, no shadow. The \<open>userData\<close> fields are still unassigned:
  they are written \<open>[]\<close>, \<open>0\<close> and \<open>False\<close> here, and \<open>placeInstrument\<close> assigns all
  three before it pushes the node. The materials are built anew in every call, so no two
  nodes share an emissive colour.\<close>

definition Mesh :: "three \<Rightarrow> nat \<Rightarrow> node" where
  "Mesh T emissiveHex =
     \<lparr>position = \<lparr>v_x = 0, v_y = 0, v_z = 0\<rparr>,
      rotation_y = 0,
      scale = \<lparr>v_x = 1, v_y = 1, v_z = 1\<rparr>,
      emissive = setHex T emissiveHex,
      castShadow = False,
      utype = [],
      originalEmissive = 0,
      hasBeenTriggered = False\<rparr>"

text \<open>Lines 235-240: the \<open>switch\<close> has no default, so \<open>newNode\<close> stays
  \<open>undefined\<close> for any other string.\<close>

definition switchType :: "three \<Rightarrow> string \<Rightarrow> node option" where
  "switchType T ty =
     (if ty = ''synth'' then Some (Mesh T 0x005f7f)
      else if ty = ''pluck'' then Some (Mesh T 0x996515)
      else if ty = ''kick'' then Some (Mesh T 0x8B0000)
      else None)"

text \<open>Lines 235-249 for a given type: \<open>newNode.position.copy\<close> on \<open>undefined\<close> throws
  before anything is pushed.\<close>

definition placeNode :: "three \<Rightarrow> string \<Rightarrow> vector3 \<Rightarrow> gameRefs \<Rightarrow> error + gameRefs" where
  "placeNode T ty point refs =
     (case switchType T ty of
        None \<Rightarrow> Inl TypeError
      | Some newNode \<Rightarrow>
          Inr (refs\<lparr>soundNodes := soundNodes refs @
            [newNode\<lparr>position := point\<lparr>v_y := v_y point + 1\<rparr>,
                     castShadow := True,
                     utype := ty,
                     originalEmissive := getHex T (emissive newNode),
                     hasBeenTriggered := False\<rparr>]\<rparr>))"

definition placeInstrument :: "three \<Rightarrow> dom \<Rightarrow> vector3 \<Rightarrow> gameRefs \<Rightarrow> error + gameRefs" where
  "placeInstrument T d point refs = placeNode T (currentType d) point refs"

subsection \<open>playSound\<close>

definition playSound :: "buffer option \<Rightarrow> gameRefs \<Rightarrow> gameRefs" where
  "playSound b refs =
     (case b of
        None \<Rightarrow> refs
      | Some buf \<Rightarrow>
          (case audioContext refs of
             None \<Rightarrow> refs
           | Some started \<Rightarrow> refs\<lparr>audioContext := Some (started @ [buf])\<rparr>))"

subsection \<open>animate\<close>

definition isGamePlaying :: "dom \<Rightarrow> bool" where
  "isGamePlaying d = classContains (play_stop_btn d) ''stop''"

text \<open>Lines 280-289, the body of the first \<open>forEach\<close>.\<close>

definition decayNode :: "three \<Rightarrow> node \<Rightarrow> node" where
  "decayNode T n =
     (let n1 = (if utype n = ''synth'' \<or> utype n = ''pluck''
                then n\<lparr>rotation_y := rotation_y n + 0.01\<rparr> else n);
          n2 = (if getHex T (emissive n1) \<noteq> originalEmissive n1
                then n1\<lparr>emissive := Color_lerp (emissive n1) (setHex T (originalEmissive n1)) 0.1\<rparr>
                else n1);
          n3 = (if utype n2 = ''kick'' \<and> v_x (scale n2) > 1
                then n2\<lparr>scale := Vector3_lerp (scale n2) \<lparr>v_x = 1, v_y = 1, v_z = 1\<rparr> 0.1\<rparr>
                else n2)
      in n3)"

definition decayPass :: "three \<Rightarrow> gameRefs \<Rightarrow> gameRefs" where
  "decayPass T refs = refs\<lparr>soundNodes := map (decayNode T) (soundNodes refs)\<rparr>"

text \<open>Lines 293-298 for a wand at \<open>x\<close>: advance, then wrap and clear every flag.\<close>

definition advanceWand :: "real \<Rightarrow> gameRefs \<Rightarrow> gameRefs" where
  "advanceWand x refs =
     (let x1 = x + 0.5 in
      if x1 > planeSize / 2
      then refs\<lparr>wandGroup := Some (- planeSize / 2),
                soundNodes := map (\<lambda>n. n\<lparr>hasBeenTriggered := False\<rparr>) (soundNodes refs)\<rparr>
      else refs\<lparr>wandGroup := Some x1\<rparr>)"

text \<open>
  The subtraction of line 301 is a binary64 subtraction: the exact difference rounded to
  53 significant bits, to nearest, ties to the even significand. The exponent is not
  bounded here: the difference of two binary64 numbers is a multiple of the smaller
  unit in the last place, so it is never lost to underflow, and a difference beyond the
  largest finite number fails the test as the code's \<open>Infinity\<close> does.
\<close>

definition roundEven :: "real \<Rightarrow> int" where
  "roundEven r =
     (let f = \<lfloor>r\<rfloor> in
      if r - of_int f < 1 / 2 then f
      else if 1 / 2 < r - of_int f then f + 1
      else if even f then f else f + 1)"

definition fl64 :: "real \<Rightarrow> real" where
  "fl64 y =
     (if y = 0 then 0
      else (let e = \<lfloor>log 2 \<bar>y\<bar>\<rfloor>;
                u = 2 powr (of_int e - 52)
            in sgn y * (u * of_int (roundEven (\<bar>y\<bar> / u)))))"

definition sub64 :: "real \<Rightarrow> real \<Rightarrow> real" where
  "sub64 a b = fl64 (a - b)"

text \<open>Line 301, the test of the second \<open>forEach\<close>, for a wand at \<open>p\<close>.\<close>

definition hits :: "real \<Rightarrow> node \<Rightarrow> bool" where
  "hits p n = (\<not> hasBeenTriggered n \<and> \<bar>sub64 (v_x (position n)) p\<bar> < 1.0)"

text \<open>Lines 302-304, what a hit does to the node.\<close>

definition triggerNode :: "three \<Rightarrow> node \<Rightarrow> node" where
  "triggerNode T n =
     (let n1 = n\<lparr>hasBeenTriggered := True\<rparr>;
          n2 = n1\<lparr>emissive := setHex T 0xffffff\<rparr>;
          n3 = (if utype n2 = ''kick'' then n2\<lparr>scale := \<lparr>v_x = 1.2, v_y = 1.2, v_z = 1.2\<rparr>\<rparr> else n2)
      in n3)"

text \<open>Lines 300-307: the second \<open>forEach\<close>, over the nodes in order; \<open>playSound\<close>
  works on the engine objects as the loop goes.\<close>

fun triggerLoop :: "three \<Rightarrow> real \<Rightarrow> node list \<Rightarrow> gameRefs \<Rightarrow> node list \<times> gameRefs" where
  "triggerLoop T p [] refs = ([], refs)"
| "triggerLoop T p (n # ns) refs =
     (if hits p n
      then (let refs1 = playSound (soundBuffers refs (utype n)) refs;
                rest = triggerLoop T p ns refs1
            in (triggerNode T n # fst rest, snd rest))
      else (let rest = triggerLoop T p ns refs
            in (n # fst rest, snd rest)))"

definition triggerPass :: "three \<Rightarrow> gameRefs \<Rightarrow> gameRefs" where
  "triggerPass T refs =
     (case wandGroup refs of
        None \<Rightarrow> refs
      | Some p \<Rightarrow>
          (let done = triggerLoop T p (soundNodes refs) refs
           in (snd done)\<lparr>soundNodes := fst done\<rparr>))"

text \<open>One frame: the early return of line 267, the decay loop, then the sequencer
  block under \<open>isGamePlaying && refs.wandGroup\<close>.\<close>

definition animate :: "three \<Rightarrow> dom \<Rightarrow> gameRefs \<Rightarrow> gameRefs" where
  "animate T d refs =
     (if \<not> rendering refs then refs
      else
        (let refs1 = decayPass T refs in
         if isGamePlaying d
         then (case wandGroup refs1 of
                 None \<Rightarrow> refs1
               | Some x \<Rightarrow> triggerPass T (advanceWand x refs1))
         else refs1))"

text \<open>Consecutive frames, each with the page as it is at that frame.\<close>

fun ticks :: "three \<Rightarrow> dom list \<Rightarrow> gameRefs \<Rightarrow> gameRefs" where
  "ticks T [] refs = refs"
| "ticks T (d # ds) refs = ticks T ds (animate T d refs)"

subsection \<open>The page and the engine at start\<close>

text \<open>The buttons as the component renders them (lines 401-428) for a selected
  instrument and a play state.\<close>

definition page :: "string \<Rightarrow> bool \<Rightarrow> dom" where
  "page activeInstrument isPlaying =
     \<lparr>pluck_btn = Some (if activeInstrument = ''pluck'' then [''instrument-btn'', ''active'']
                         else [''instrument-btn'']),
      kick_btn = Some (if activeInstrument = ''kick'' then [''instrument-btn'', ''active'']
                        else [''instrument-btn'']),
      play_stop_btn = Some (if isPlaying then [''stop-state'', ''stop'']
                             else [''play-state'', ''play''])\<rparr>"

text \<open>The engine objects when \<open>startGame\<close> has run and no sound has been decoded yet:
  the wand at \<open>-planeSize / 2\<close>, no nodes.\<close>

definition startGame :: gameRefs where
  "startGame =
     \<lparr>wandGroup = Some (- planeSize / 2),
      soundNodes = [],
      soundBuffers = Map.empty,
      audioContext = Some [],
      rendering = True\<rparr>"

text \<open>A click that hits the plane at \<open>(x, 0, 0)\<close> while the buttons select \<open>ty\<close>, and
  the scene of the spec's scenario: a synth at \<open>-50\<close>, a pluck at \<open>0\<close>, a kick at \<open>50\<close>,
  placed in this order before the first frame.\<close>

definition placed :: "three \<Rightarrow> string \<Rightarrow> real \<Rightarrow> gameRefs \<Rightarrow> gameRefs" where
  "placed T ty x refs =
     (case placeInstrument T (page ty False) \<lparr>v_x = x, v_y = 0, v_z = 0\<rparr> refs of
        Inl e \<Rightarrow> refs
      | Inr refs' \<Rightarrow> refs')"

definition scenario :: "three \<Rightarrow> gameRefs" where
  "scenario T = placed T ''kick'' 50 (placed T ''pluck'' 0 (placed T ''synth'' (-50) startGame))"

text \<open>A lone kick at \<open>50\<close> with the wand at \<open>49\<close> (where 298 frames of play take
  it), and the same after the frame that strikes it.\<close>

definition kickAhead :: gameRefs where
  "kickAhead = (placed three160 ''kick'' 50 startGame)\<lparr>wandGroup := Some 49\<rparr>"

definition kickStruck :: gameRefs where
  "kickStruck = animate three160 (page ''kick'' True) kickAhead"

subsection \<open>One frame, node by node\<close>

text \<open>The second loop's effect on one node, and the first loop, the wrap and the second
  loop together on one node for a wand that was at \<open>x\<close> before the frame.\<close>

definition stepHit :: "three \<Rightarrow> real \<Rightarrow> node \<Rightarrow> node" where
  "stepHit T p n = (if hits p n then triggerNode T n else n)"

definition wraps :: "real \<Rightarrow> bool" where
  "wraps x = (x + 0.5 > planeSize / 2)"

definition nextWand :: "real \<Rightarrow> real" where
  "nextWand x = (if wraps x then - planeSize / 2 else x + 0.5)"

definition beforeDetect :: "three \<Rightarrow> real \<Rightarrow> node \<Rightarrow> node" where
  "beforeDetect T x n =
     (if wraps x then (decayNode T n)\<lparr>hasBeenTriggered := False\<rparr> else decayNode T n)"

definition stepNode :: "three \<Rightarrow> real \<Rightarrow> node \<Rightarrow> node" where
  "stepNode T x n = stepHit T (nextWand x) (beforeDetect T x n)"

text \<open>The test of line 301 comes out true for node \<open>i\<close> in this frame: the node is
  triggered.\<close>

definition fires :: "three \<Rightarrow> dom \<Rightarrow> gameRefs \<Rightarrow> nat \<Rightarrow> bool" where
  "fires T d refs i =
     (rendering refs \<and> isGamePlaying d \<and>
      (case wandGroup refs of
         None \<Rightarrow> False
       | Some x \<Rightarrow>
           (let refs1 = advanceWand x (decayPass T refs) in
            case wandGroup refs1 of
              None \<Rightarrow> False
            | Some p \<Rightarrow> hits p (soundNodes refs1 ! i))))"

definition near :: "real \<Rightarrow> node \<Rightarrow> bool" where
  "near p n = (\<bar>sub64 (v_x (position n)) p\<bar> < 1.0)"

subsection \<open>Visual state as the specification names it\<close>

text \<open>The highlight is the distance of the emissive colour from the colour the flash
  decays to, channel by channel; the scale impulse is the distance of the scale from 1.\<close>

definition glow :: "three \<Rightarrow> node \<Rightarrow> real \<times> real \<times> real" where
  "glow T n =
     (c_r (emissive n) - c_r (setHex T (originalEmissive n)),
      c_g (emissive n) - c_g (setHex T (originalEmissive n)),
      c_b (emissive n) - c_b (setHex T (originalEmissive n)))"

definition swell :: "node \<Rightarrow> real \<times> real \<times> real" where
  "swell n = (v_x (scale n) - 1, v_y (scale n) - 1, v_z (scale n) - 1)"

definition times3 :: "real \<Rightarrow> real \<times> real \<times> real \<Rightarrow> real \<times> real \<times> real" where
  "times3 c v = (c * fst v, c * fst (snd v), c * snd (snd v))"

text \<open>The frame in the order the specification gives: advance, wrap and reset, detection
  with dispatch and impulse, and the decay of all nodes last.\<close>

definition specOrderTick :: "three \<Rightarrow> dom \<Rightarrow> gameRefs \<Rightarrow> gameRefs" where
  "specOrderTick T d refs =
     (if \<not> rendering refs then refs
      else
        (let refs1 =
           (if isGamePlaying d
            then (case wandGroup refs of
                    None \<Rightarrow> refs
                  | Some x \<Rightarrow> triggerPass T (advanceWand x refs))
            else refs)
         in decayPass T refs1))"

text \<open>Two engine states that agree on everything but the sound bank and the started
  sources.\<close>

definition sameEngine :: "gameRefs \<Rightarrow> gameRefs \<Rightarrow> bool" where
  "sameEngine r r' = (wandGroup r = wandGroup r' \<and> soundNodes r = soundNodes r' \<and> rendering r = rendering r')"

subsection \<open>Sound a frame starts, states the page reaches\<close>

text \<open>The buffers the second loop hands to \<open>playSound\<close> in a frame and finds present
  (line 305): for each node the test of line 301 holds for, in node order, the entry of
  the bank for its type.\<close>

definition dispatched :: "three \<Rightarrow> dom \<Rightarrow> gameRefs \<Rightarrow> buffer list" where
  "dispatched T d refs =
     List.map_filter
       (\<lambda>i. if fires T d refs i then soundBuffers refs (utype (soundNodes refs ! i)) else None)
       [0..<length (soundNodes refs)]"

text \<open>The scenario when the 400 frames of its first sweep are over, the wand at \<open>100\<close>
  and the three nodes triggered; a lone kick on the left edge of the plane, at \<open>-100\<close>,
  before and after such a sweep.\<close>

definition sweptScenario :: gameRefs where
  "sweptScenario = ticks three160 (replicate 400 (page ''kick'' True)) (scenario three160)"

definition edgeKick :: gameRefs where
  "edgeKick = placed three160 ''kick'' (-100) startGame"

definition sweptEdgeKick :: gameRefs where
  "sweptEdgeKick = ticks three160 (replicate 400 (page ''kick'' True)) edgeKick"

text \<open>A lone kick at \<open>- 1 / 2 ^ 70\<close> when 197 frames of play have brought the wand to
  \<open>-1.5\<close>: the next frame puts the wand at \<open>-1\<close>, at an exact distance below \<open>1\<close>
  that binary64 rounds to \<open>1\<close>.\<close>

definition grazedKick :: gameRefs where
  "grazedKick =
     ticks three160 (replicate 197 (page ''kick'' True))
       (placed three160 ''kick'' (- (1 / 2 ^ 70)) startGame)"

text \<open>The engine states the page can reach: the state \<open>startGame\<close> builds, a decoded
  sound stored in the bank (line 93), a click that places a node, a frame.\<close>

inductive reachable :: "three \<Rightarrow> gameRefs \<Rightarrow> bool" for T :: three where
  start: "reachable T startGame"
| loaded: "reachable T refs \<Longrightarrow>
           reachable T (refs\<lparr>soundBuffers := (soundBuffers refs)(name \<mapsto> buffer)\<rparr>)"
| click: "reachable T refs \<Longrightarrow> placeInstrument T d point refs = Inr refs' \<Longrightarrow> reachable T refs'"
| frame: "reachable T refs \<Longrightarrow> reachable T (animate T d refs)"

text \<open>The scale of a node in such a state: the \<open>(1, 1, 1)\<close> the mesh is built with, or
  that of a kick after a trigger, above \<open>1\<close>.\<close>

definition scaleAtRest :: "node \<Rightarrow> bool" where
  "scaleAtRest n =
     (scale n = \<lparr>v_x = 1, v_y = 1, v_z = 1\<rparr> \<or> (utype n = ''kick'' \<and> 1 < v_x (scale n)))"

section \<open>Properties\<close>

subsection \<open>The binary64 test against 1.0\<close>

lemma roundEven_ge: "of_int n \<le> r \<Longrightarrow> n \<le> roundEven r"
proof -
  assume "of_int n \<le> r"
  then have "n \<le> \<lfloor>r\<rfloor>"
    by (simp add: le_floor_iff)
  then show ?thesis
    by (simp add: roundEven_def Let_def)
qed

lemma roundEven_le: "r \<le> of_int n \<Longrightarrow> roundEven r \<le> n"
proof -
  assume a: "r \<le> of_int n"
  show ?thesis
  proof (cases "r = of_int n")
    case True
    then show ?thesis by (simp add: roundEven_def Let_def)
  next
    case False
    with a have "r < of_int n" by simp
    then have "\<lfloor>r\<rfloor> < n"
      by (simp add: floor_less_iff)
    then show ?thesis
      by (simp add: roundEven_def Let_def)
  qed
qed

lemma roundEven_less_even:
  assumes "even N"
  shows "roundEven r < N \<longleftrightarrow> r < of_int N - 1 / 2"
proof
  assume lt: "r < of_int N - 1 / 2"
  then have "r < of_int N" by simp
  then have f: "\<lfloor>r\<rfloor> < N" by (simp add: floor_less_iff)
  show "roundEven r < N"
  proof (cases "\<lfloor>r\<rfloor> = N - 1")
    case True
    then have "r - of_int \<lfloor>r\<rfloor> < 1 / 2"
      using lt by simp
    then show ?thesis
      using f by (simp add: roundEven_def Let_def)
  next
    case False
    with f have "\<lfloor>r\<rfloor> + 1 < N" by simp
    then show ?thesis
      by (simp add: roundEven_def Let_def)
  qed
next
  assume lt: "roundEven r < N"
  show "r < of_int N - 1 / 2"
  proof (rule ccontr)
    assume "\<not> r < of_int N - 1 / 2"
    then have ge: "of_int N - 1 / 2 \<le> r" by simp
    have "of_int (N - 1) \<le> r"
      using ge by simp
    then have f: "N - 1 \<le> \<lfloor>r\<rfloor>"
      by (simp add: le_floor_iff)
    show False
    proof (cases "\<lfloor>r\<rfloor> = N - 1")
      case True
      then have half: "1 / 2 \<le> r - of_int \<lfloor>r\<rfloor>"
        using ge by simp
      have "odd \<lfloor>r\<rfloor>"
        unfolding True using assms by simp
      then have "roundEven r = \<lfloor>r\<rfloor> + 1"
        using half by (auto simp: roundEven_def Let_def)
      with lt True show False by simp
    next
      case False
      with f have "N \<le> \<lfloor>r\<rfloor>" by simp
      moreover have "\<lfloor>r\<rfloor> \<le> roundEven r"
        by (rule roundEven_ge) simp
      ultimately show False using lt by simp
    qed
  qed
qed

lemma fl64_lt_one: "\<bar>fl64 d\<bar> < 1 \<longleftrightarrow> \<bar>d\<bar> < 1 - 1 / 2 ^ 54"
proof (cases "d = 0")
  case True
  then show ?thesis by (simp add: fl64_def)
next
  case False
  define a :: real where "a = \<bar>d\<bar>"
  define e where "e = \<lfloor>log 2 a\<rfloor>"
  define u :: real where "u = 2 powr (of_int e - 52)"
  define q :: real where "q = a / u"
  have a: "0 < a" using False by (simp add: a_def)
  have u: "0 < u" by (simp add: u_def)
  have e: "2 powr (of_int e) \<le> a" "a < 2 powr (of_int e + 1)"
    using floor_log_eq_powr_iff [of a 2 e] a by (simp_all add: e_def)
  have u52: "u * 2 ^ 52 = 2 powr (of_int e)"
  proof -
    have "u * 2 powr 52 = 2 powr ((of_int e - 52) + 52)"
      unfolding u_def by (rule powr_add [symmetric])
    moreover have "(2::real) powr 52 = 2 ^ 52"
      by simp
    ultimately show ?thesis by simp
  qed
  have u53: "u * 2 ^ 53 = 2 powr (of_int e + 1)"
  proof -
    have "u * 2 powr 53 = 2 powr ((of_int e - 52) + 53)"
      unfolding u_def by (rule powr_add [symmetric])
    moreover have "(2::real) powr 53 = 2 ^ 53"
      by simp
    moreover have "(of_int e - 52) + 53 = (of_int e + 1 :: real)"
      by simp
    ultimately show ?thesis by simp
  qed
  have q: "2 ^ 52 \<le> q" "q < 2 ^ 53"
  proof -
    have "u * 2 ^ 52 \<le> a" using e(1) u52 by simp
    then show "2 ^ 52 \<le> q"
      unfolding q_def using u by (simp add: pos_le_divide_eq mult.commute)
    have "a < u * 2 ^ 53" using e(2) u53 by simp
    then show "q < 2 ^ 53"
      unfolding q_def using u by (simp add: pos_divide_less_eq mult.commute)
  qed
  have r0: "0 \<le> roundEven q"
    by (rule roundEven_ge) (use q(1) in simp)
  have fl: "\<bar>fl64 d\<bar> = u * of_int (roundEven q)"
    using False u r0
    by (simp add: fl64_def Let_def a_def [symmetric] e_def [symmetric] u_def [symmetric]
        q_def [symmetric] abs_mult)
  consider "0 \<le> e" | "e = -1" | "e \<le> -2"
    by linarith
  then show ?thesis
  proof cases
    case 1
    have "(2::int) ^ 52 \<le> roundEven q"
      by (rule roundEven_ge) (use q(1) in simp)
    then have "(2::real) ^ 52 \<le> of_int (roundEven q)"
      by (metis of_int_le_iff of_int_numeral of_int_power)
    then have "u * 2 ^ 52 \<le> u * of_int (roundEven q)"
      using u by simp
    moreover have "1 \<le> 2 powr (of_int e :: real)"
      using 1 by (simp add: ge_one_powr_ge_zero)
    ultimately have "1 \<le> \<bar>fl64 d\<bar>"
      unfolding fl u52 by linarith
    moreover have "1 \<le> a"
      using e(1) \<open>1 \<le> 2 powr (of_int e :: real)\<close> by linarith
    ultimately show ?thesis
      unfolding a_def by simp
  next
    case 2
    have uval: "u = 1 / 2 ^ 53"
    proof -
      have "u = 2 powr (- 53)"
        unfolding u_def 2 by simp
      also have "\<dots> = 1 / 2 powr 53"
        by (simp add: powr_minus_divide)
      finally show ?thesis by simp
    qed
    have "\<bar>fl64 d\<bar> < 1 \<longleftrightarrow> of_int (roundEven q) < (2::real) ^ 53"
      unfolding fl uval by (simp add: field_simps)
    also have "\<dots> \<longleftrightarrow> roundEven q < 2 ^ 53"
      by (metis of_int_less_iff of_int_numeral of_int_power)
    also have "\<dots> \<longleftrightarrow> q < of_int (2 ^ 53) - 1 / 2"
      by (rule roundEven_less_even) simp
    also have "\<dots> \<longleftrightarrow> a < 1 - 1 / 2 ^ 54"
      unfolding q_def uval by (simp add: field_simps)
    finally show ?thesis
      unfolding a_def .
  next
    case 3
    have "roundEven q \<le> 2 ^ 53"
      by (rule roundEven_le) (use q(2) in simp)
    then have "of_int (roundEven q) \<le> (2::real) ^ 53"
      by (metis of_int_le_iff of_int_numeral of_int_power)
    then have "u * of_int (roundEven q) \<le> u * 2 ^ 53"
      using u by simp
    moreover have "2 powr (of_int e + 1) \<le> 2 powr (-1 :: real)"
      using 3 by (intro powr_mono) simp_all
    moreover have "2 powr (-1 :: real) = 1 / 2"
      by (simp add: powr_minus_divide)
    ultimately have "\<bar>fl64 d\<bar> \<le> 1 / 2" "a < 1 / 2"
      unfolding fl u53 using e(2) by linarith+
    then show ?thesis
      unfolding a_def by simp
  qed
qed

lemma sub64_lt_one: "\<bar>sub64 a b\<bar> < 1 \<longleftrightarrow> \<bar>a - b\<bar> < 1 - 1 / 2 ^ 54"
  by (simp add: sub64_def fl64_lt_one)

lemma near_iff: "near p n \<longleftrightarrow> \<bar>v_x (position n) - p\<bar> < 1 - 1 / 2 ^ 54"
  by (simp add: near_def sub64_def fl64_lt_one)

lemma hits_near: "hits p n = (\<not> hasBeenTriggered n \<and> near p n)"
  by (simp add: hits_def near_def)

subsection \<open>The loops, field by field\<close>

lemma playSound_fields [simp]:
  "wandGroup (playSound b r) = wandGroup r"
  "soundNodes (playSound b r) = soundNodes r"
  "soundBuffers (playSound b r) = soundBuffers r"
  "rendering (playSound b r) = rendering r"
  by (simp_all add: playSound_def split: option.splits)

lemma triggerLoop_nodes: "fst (triggerLoop T p ns r) = map (stepHit T p) ns"
  by (induction ns arbitrary: r) (simp_all add: stepHit_def Let_def)

lemma triggerLoop_fields [simp]:
  "wandGroup (snd (triggerLoop T p ns r)) = wandGroup r"
  "soundBuffers (snd (triggerLoop T p ns r)) = soundBuffers r"
  "rendering (snd (triggerLoop T p ns r)) = rendering r"
  by (induction ns arbitrary: r; simp add: Let_def)+

lemma triggerLoop_silent:
  "soundBuffers r = Map.empty \<Longrightarrow> snd (triggerLoop T p ns r) = r"
  by (induction ns arbitrary: r) (simp_all add: playSound_def Let_def)

lemma decayNode_fields [simp]:
  "hasBeenTriggered (decayNode T n) = hasBeenTriggered n"
  "position (decayNode T n) = position n"
  "utype (decayNode T n) = utype n"
  "originalEmissive (decayNode T n) = originalEmissive n"
  by (simp_all add: decayNode_def Let_def)

lemma animate_stopped:
  "\<not> isGamePlaying d \<Longrightarrow> rendering r \<Longrightarrow> animate T d r = decayPass T r"
  by (simp add: animate_def)

lemma animate_playing:
  assumes "rendering r" "isGamePlaying d" "wandGroup r = Some x"
  shows "wandGroup (animate T d r) = Some (nextWand x)"
    and "soundNodes (animate T d r) = map (stepNode T x) (soundNodes r)"
  using assms
  by (simp_all add: animate_def decayPass_def advanceWand_def triggerPass_def Let_def
      nextWand_def wraps_def stepNode_def beforeDetect_def triggerLoop_nodes)

lemma animate_keeps [simp]:
  "rendering (animate T d r) = rendering r"
  "soundBuffers (animate T d r) = soundBuffers r"
  "length (soundNodes (animate T d r)) = length (soundNodes r)"
  by (simp_all add: animate_def decayPass_def advanceWand_def triggerPass_def Let_def
      triggerLoop_nodes split: option.splits)

lemma ticks_keeps [simp]:
  "rendering (ticks T ds r) = rendering r"
  "soundBuffers (ticks T ds r) = soundBuffers r"
  "length (soundNodes (ticks T ds r)) = length (soundNodes r)"
  by (induction ds arbitrary: r; simp)+

lemma ticks_append: "ticks T (ds @ es) r = ticks T es (ticks T ds r)"
  by (induction ds arbitrary: r) simp_all

lemma ticks_snoc: "ticks T (ds @ [d]) r = animate T d (ticks T ds r)"
  by (simp add: ticks_append)

subsection \<open>Placement\<close>

text \<open>
  Claim C10. When neither the Pluck nor the Kick button carries the class \<open>active\<close>
  (the button may also be missing from the page), \<open>placeInstrument\<close> does not fail: it
  appends one node of type \<open>synth\<close>, with the synth material.
\<close>

theorem placement_defaults_to_synth:
  assumes "\<not> classContains (pluck_btn d) ''active''"
    and "\<not> classContains (kick_btn d) ''active''"
  shows "currentType d = ''synth'' \<and>
         (\<exists>n. placeInstrument T d point refs = Inr (refs\<lparr>soundNodes := soundNodes refs @ [n]\<rparr>)
              \<and> utype n = ''synth'' \<and> emissive n = setHex T 0x005f7f)"
proof -
  have ty: "currentType d = ''synth''"
    using assms by (simp add: currentType_def)
  show ?thesis
    unfolding placeInstrument_def ty placeNode_def switchType_def
    by (simp add: Mesh_def) (intro exI conjI, rule refl, simp_all)
qed

theorem placement_defaults_to_synth_witness:
  "\<not> classContains (pluck_btn \<lparr>pluck_btn = Some [''instrument-btn''], kick_btn = None, play_stop_btn = None\<rparr>) ''active''
   \<and> \<not> classContains (kick_btn \<lparr>pluck_btn = Some [''instrument-btn''], kick_btn = None, play_stop_btn = None\<rparr>) ''active''
   \<and> currentType \<lparr>pluck_btn = Some [''instrument-btn''], kick_btn = None, play_stop_btn = None\<rparr> = ''synth''
   \<and> (\<exists>n. placeInstrument three160
              \<lparr>pluck_btn = Some [''instrument-btn''], kick_btn = None, play_stop_btn = None\<rparr>
              \<lparr>v_x = 3, v_y = 0, v_z = 4\<rparr> startGame
            = Inr (startGame\<lparr>soundNodes := soundNodes startGame @ [n]\<rparr>)
          \<and> utype n = ''synth'' \<and> emissive n = setHex three160 0x005f7f)"
  using placement_defaults_to_synth
    [of "\<lparr>pluck_btn = Some [''instrument-btn''], kick_btn = None, play_stop_btn = None\<rparr>"
        three160 "\<lparr>v_x = 3, v_y = 0, v_z = 4\<rparr>" startGame]
  by (simp add: classContains_def)

text \<open>
  Claim C9. The \<open>switch\<close> of \<open>placeInstrument\<close> has no default case: for a type string
  other than \<open>synth\<close>, \<open>pluck\<close>, \<open>kick\<close> the placement ends in a \<open>TypeError\<close> and no
  engine state is produced, so nothing is appended. For one of the three it appends
  exactly one node, not triggered, with the material's emissive colour and that colour's
  hex as \<open>originalEmissive\<close> (the flash test of the decay loop finds nothing to fade) and
  with unit scale (left alone by the decay loop). \<open>placeInstrument\<close> itself only ever
  passes one of the three strings, and always succeeds.
\<close>

theorem placement_type_checked:
  "(ty \<noteq> ''synth'' \<and> ty \<noteq> ''pluck'' \<and> ty \<noteq> ''kick''
      \<longrightarrow> placeNode T ty point refs = Inl TypeError)
   \<and> (ty = ''synth'' \<or> ty = ''pluck'' \<or> ty = ''kick''
      \<longrightarrow> (\<exists>n. placeNode T ty point refs = Inr (refs\<lparr>soundNodes := soundNodes refs @ [n]\<rparr>)
              \<and> utype n = ty \<and> \<not> hasBeenTriggered n
              \<and> getHex T (emissive n) = originalEmissive n
              \<and> emissive (decayNode T n) = emissive n
              \<and> scale n = \<lparr>v_x = 1, v_y = 1, v_z = 1\<rparr>
              \<and> scale (decayNode T n) = scale n))
   \<and> (\<exists>refs'. placeInstrument T d point refs = Inr refs')"
proof (intro conjI impI)
  assume "ty \<noteq> ''synth'' \<and> ty \<noteq> ''pluck'' \<and> ty \<noteq> ''kick''"
  then show "placeNode T ty point refs = Inl TypeError"
    by (simp add: placeNode_def switchType_def)
next
  assume "ty = ''synth'' \<or> ty = ''pluck'' \<or> ty = ''kick''"
  then obtain h where sw: "switchType T ty = Some (Mesh T h)"
    by (auto simp: switchType_def)
  show "\<exists>n. placeNode T ty point refs = Inr (refs\<lparr>soundNodes := soundNodes refs @ [n]\<rparr>)
              \<and> utype n = ty \<and> \<not> hasBeenTriggered n
              \<and> getHex T (emissive n) = originalEmissive n
              \<and> emissive (decayNode T n) = emissive n
              \<and> scale n = \<lparr>v_x = 1, v_y = 1, v_z = 1\<rparr>
              \<and> scale (decayNode T n) = scale n"
    unfolding placeNode_def sw
    by (simp add: Mesh_def) (intro exI conjI, rule refl, simp_all add: decayNode_def Let_def)
next
  have "currentType d = ''synth'' \<or> currentType d = ''pluck'' \<or> currentType d = ''kick''"
    by (simp add: currentType_def)
  then obtain h where "switchType T (currentType d) = Some (Mesh T h)"
    by (auto simp: switchType_def)
  then show "\<exists>refs'. placeInstrument T d point refs = Inr refs'"
    by (simp add: placeInstrument_def placeNode_def)
qed

theorem placement_type_checked_witness:
  "placeNode three160 ''drum'' \<lparr>v_x = 3, v_y = 0, v_z = 4\<rparr> startGame = Inl TypeError
   \<and> (\<exists>n. placeNode three160 ''kick'' \<lparr>v_x = 3, v_y = 0, v_z = 4\<rparr> startGame
            = Inr (startGame\<lparr>soundNodes := soundNodes startGame @ [n]\<rparr>)
          \<and> utype n = ''kick'' \<and> \<not> hasBeenTriggered n
          \<and> scale n = \<lparr>v_x = 1, v_y = 1, v_z = 1\<rparr>)"
  using placement_type_checked [of "''drum''" three160 "\<lparr>v_x = 3, v_y = 0, v_z = 4\<rparr>" startGame]
    placement_type_checked [of "''kick''" three160 "\<lparr>v_x = 3, v_y = 0, v_z = 4\<rparr>" startGame]
  by auto

subsection \<open>The scenario and the page\<close>

lemma page_playing [simp]: "isGamePlaying (page ty b) = b"
  by (simp add: page_def isGamePlaying_def classContains_def)

lemma page_type:
  "currentType (page ty b) = (if ty = ''kick'' then ''kick'' else if ty = ''pluck'' then ''pluck'' else ''synth'')"
  by (simp add: page_def currentType_def classContains_def)

lemma placed_fields [simp]:
  "wandGroup (placed T ty x r) = wandGroup r"
  "rendering (placed T ty x r) = rendering r"
  "soundBuffers (placed T ty x r) = soundBuffers r"
  "audioContext (placed T ty x r) = audioContext r"
  by (simp_all add: placed_def placeInstrument_def placeNode_def split: option.splits)

lemma placed_nodes:
  "ty = ''synth'' \<or> ty = ''pluck'' \<or> ty = ''kick'' \<Longrightarrow>
   \<exists>n. soundNodes (placed T ty x r) = soundNodes r @ [n] \<and> v_x (position n) = x \<and> utype n = ty
       \<and> \<not> hasBeenTriggered n \<and> scale n = \<lparr>v_x = 1, v_y = 1, v_z = 1\<rparr>"
  by (auto simp: placed_def placeInstrument_def placeNode_def switchType_def page_type Mesh_def)

lemma scenario_state [simp]:
  "wandGroup (scenario T) = Some (-100)"
  "rendering (scenario T)"
  "soundBuffers (scenario T) = Map.empty"
  "length (soundNodes (scenario T)) = 3"
  by (simp_all add: scenario_def startGame_def planeSize_def placed_def placeInstrument_def
      page_type placeNode_def switchType_def)

lemma scenario_nodes [simp]:
  "v_x (position (soundNodes (scenario T) ! 0)) = -50"
  "v_x (position (soundNodes (scenario T) ! Suc 0)) = 0"
  "v_x (position (soundNodes (scenario T) ! 2)) = 50"
  "utype (soundNodes (scenario T) ! 0) = ''synth''"
  "utype (soundNodes (scenario T) ! Suc 0) = ''pluck''"
  "utype (soundNodes (scenario T) ! 2) = ''kick''"
  "\<not> hasBeenTriggered (soundNodes (scenario T) ! 0)"
  "\<not> hasBeenTriggered (soundNodes (scenario T) ! Suc 0)"
  "\<not> hasBeenTriggered (soundNodes (scenario T) ! 2)"
  by (simp_all add: scenario_def startGame_def placed_def placeInstrument_def
      page_type placeNode_def switchType_def)

lemma kickAhead_state [simp]:
  "rendering kickAhead" "wandGroup kickAhead = Some 49" "length (soundNodes kickAhead) = 1"
  "utype (soundNodes kickAhead ! 0) = ''kick''"
  "v_x (position (soundNodes kickAhead ! 0)) = 50"
  "\<not> hasBeenTriggered (soundNodes kickAhead ! 0)"
  "scale (soundNodes kickAhead ! 0) = \<lparr>v_x = 1, v_y = 1, v_z = 1\<rparr>"
  by (simp_all add: kickAhead_def startGame_def placed_def placeInstrument_def page_type
      placeNode_def switchType_def Mesh_def)

lemma kickStruck_state [simp]:
  "rendering kickStruck" "wandGroup kickStruck = Some 49.5"
  by (simp_all add: kickStruck_def animate_playing(1) [of _ _ 49] nextWand_def wraps_def planeSize_def)

subsection \<open>Sound\<close>

lemma animate_bank:
  "soundNodes (animate T d (r\<lparr>soundBuffers := bank\<rparr>)) = soundNodes (animate T d r)"
  "wandGroup (animate T d (r\<lparr>soundBuffers := bank\<rparr>)) = wandGroup (animate T d r)"
  by (simp_all add: animate_def decayPass_def advanceWand_def triggerPass_def Let_def
      triggerLoop_nodes split: option.splits)

lemma animate_sameEngine:
  "sameEngine r r' \<Longrightarrow> sameEngine (animate T d r) (animate T d r')"
  by (simp add: sameEngine_def animate_def decayPass_def advanceWand_def triggerPass_def Let_def
      triggerLoop_nodes split: option.splits)

lemma ticks_sameEngine:
  "sameEngine r r' \<Longrightarrow> sameEngine (ticks T ds r) (ticks T ds r')"
  by (induction ds arbitrary: r r') (simp_all add: animate_sameEngine)

lemma animate_silent:
  "soundBuffers r = Map.empty \<Longrightarrow> audioContext (animate T d r) = audioContext r"
  by (simp add: animate_def decayPass_def advanceWand_def triggerPass_def Let_def
      triggerLoop_silent split: option.splits)

lemma ticks_silent:
  "soundBuffers r = Map.empty \<Longrightarrow> audioContext (ticks T ds r) = audioContext r"
  by (induction ds arbitrary: r) (simp_all add: animate_silent)

subsection \<open>Frames while stopped\<close>

lemma ticks_stopped:
  "\<forall>d \<in> set ds. \<not> isGamePlaying d \<Longrightarrow> rendering r \<Longrightarrow>
   ticks T ds r = r\<lparr>soundNodes := map ((decayNode T) ^^ length ds) (soundNodes r)\<rparr>"
proof (induction ds arbitrary: r)
  case Nil
  then show ?case by simp
next
  case (Cons d ds)
  then show ?case
    by (simp add: animate_stopped decayPass_def funpow_swap1 o_def)
qed

lemma decay_iter_flag [simp]:
  "hasBeenTriggered (((decayNode T) ^^ k) n) = hasBeenTriggered n"
  by (induction k) simp_all

subsection \<open>A sweep\<close>

lemma stepNode_fields [simp]:
  "position (stepNode T x n) = position n"
  "utype (stepNode T x n) = utype n"
  "originalEmissive (stepNode T x n) = originalEmissive n"
  by (simp_all add: stepNode_def stepHit_def beforeDetect_def triggerNode_def Let_def)

lemma stepNode_flag:
  "hasBeenTriggered (stepNode T x n) =
     (if wraps x then near (nextWand x) n else hasBeenTriggered n \<or> near (nextWand x) n)"
  by (simp add: stepNode_def stepHit_def beforeDetect_def triggerNode_def Let_def hits_def near_def)

lemma fires_node:
  assumes "rendering r" "isGamePlaying d" "wandGroup r = Some x" "i < length (soundNodes r)"
  shows "fires T d r i = hits (nextWand x) (beforeDetect T x (soundNodes r ! i))"
  using assms
  by (simp add: fires_def decayPass_def advanceWand_def Let_def nextWand_def wraps_def beforeDetect_def)

lemma fires_flag:
  assumes "rendering r" "isGamePlaying d" "wandGroup r = Some x" "i < length (soundNodes r)"
  shows "fires T d r i =
     ((wraps x \<or> \<not> hasBeenTriggered (soundNodes r ! i)) \<and> near (nextWand x) (soundNodes r ! i))"
  by (simp add: fires_node [OF assms] beforeDetect_def hits_def near_def)

lemma run_Suc: "ticks T (replicate (Suc k) d) r = animate T d (ticks T (replicate k d) r)"
  by (metis replicate_Suc replicate_append_same ticks_snoc)

lemma sweep_wand:
  assumes "rendering r" "isGamePlaying d" "wandGroup r = Some x"
  shows "x + real k / 2 \<le> planeSize / 2 \<Longrightarrow>
         wandGroup (ticks T (replicate k d) r) = Some (x + real k / 2)"
proof (induction k)
  case 0
  then show ?case using assms by simp
next
  case (Suc k)
  have sk: "real (Suc k) / 2 = real k / 2 + 1 / 2"
    by (simp add: add_divide_distrib)
  have le: "x + real k / 2 \<le> planeSize / 2"
    using Suc.prems unfolding sk by linarith
  have w: "wandGroup (ticks T (replicate k d) r) = Some (x + real k / 2)"
    using Suc.IH [OF le] .
  have "\<not> wraps (x + real k / 2)"
    unfolding wraps_def using Suc.prems unfolding sk by linarith
  then have "nextWand (x + real k / 2) = x + real (Suc k) / 2"
    unfolding nextWand_def sk by simp
  then show ?case
    unfolding run_Suc
    using animate_playing(1) [OF _ assms(2) w, of T] assms(1)
    by simp
qed

lemma sweep_node:
  assumes "rendering r" "isGamePlaying d" "wandGroup r = Some x" "i < length (soundNodes r)"
  shows "x + real k / 2 \<le> planeSize / 2 \<Longrightarrow>
         position (soundNodes (ticks T (replicate k d) r) ! i) = position (soundNodes r ! i) \<and>
         utype (soundNodes (ticks T (replicate k d) r) ! i) = utype (soundNodes r ! i) \<and>
         hasBeenTriggered (soundNodes (ticks T (replicate k d) r) ! i) =
           (hasBeenTriggered (soundNodes r ! i) \<or>
            (\<exists>j. 1 \<le> j \<and> j \<le> k \<and> near (x + real j / 2) (soundNodes r ! i)))"
proof (induction k)
  case 0
  then show ?case by simp
next
  case (Suc k)
  let ?s = "ticks T (replicate k d) r"
  have sk: "real (Suc k) / 2 = real k / 2 + 1 / 2"
    by (simp add: add_divide_distrib)
  have le: "x + real k / 2 \<le> planeSize / 2"
    using Suc.prems unfolding sk by linarith
  have w: "wandGroup ?s = Some (x + real k / 2)"
    using sweep_wand [OF assms(1-3) le] .
  have nw: "\<not> wraps (x + real k / 2)"
    unfolding wraps_def using Suc.prems unfolding sk by linarith
  have nx: "nextWand (x + real k / 2) = x + real (Suc k) / 2"
    using nw unfolding nextWand_def sk by simp
  have i: "i < length (soundNodes ?s)"
    using assms(4) by simp
  have nodes: "soundNodes (ticks T (replicate (Suc k) d) r) ! i =
        stepNode T (x + real k / 2) (soundNodes ?s ! i)"
    unfolding run_Suc
    using animate_playing(2) [OF _ assms(2) w, of T] assms(1) i by simp
  have nearEq: "near p (soundNodes ?s ! i) = near p (soundNodes r ! i)" for p
    using Suc.IH [OF le] by (simp add: near_def)
  have ex: "(\<exists>j. 1 \<le> j \<and> j \<le> Suc k \<and> near (x + real j / 2) (soundNodes r ! i)) =
        ((\<exists>j. 1 \<le> j \<and> j \<le> k \<and> near (x + real j / 2) (soundNodes r ! i))
          \<or> near (x + real (Suc k) / 2) (soundNodes r ! i))"
    by (metis le_Suc_eq le_SucI le_refl le_add1 plus_1_eq_Suc)
  show ?case
    unfolding nodes ex
    using Suc.IH [OF le] nw
    by (simp add: stepNode_flag nx nearEq del: of_nat_Suc)
qed

lemma sweep_fires:
  assumes "rendering r" "isGamePlaying d" "wandGroup r = Some x" "i < length (soundNodes r)"
    and "x + real (Suc k) / 2 \<le> planeSize / 2"
  shows "fires T d (ticks T (replicate k d) r) i =
           (\<not> hasBeenTriggered (soundNodes r ! i) \<and>
            (\<forall>j<k. \<not> near (x + real (Suc j) / 2) (soundNodes r ! i)) \<and>
            near (x + real (Suc k) / 2) (soundNodes r ! i))"
proof -
  let ?s = "ticks T (replicate k d) r"
  have sk: "real (Suc k) / 2 = real k / 2 + 1 / 2"
    by (simp add: add_divide_distrib)
  have le: "x + real k / 2 \<le> planeSize / 2"
    using assms(5) unfolding sk by linarith
  have w: "wandGroup ?s = Some (x + real k / 2)"
    using sweep_wand [OF assms(1-3) le] .
  have nw: "\<not> wraps (x + real k / 2)"
    unfolding wraps_def using assms(5) unfolding sk by linarith
  have nx: "nextWand (x + real k / 2) = x + real (Suc k) / 2"
    using nw unfolding nextWand_def sk by simp
  note node = sweep_node [OF assms(1-4) le, of T]
  have nearEq: "near p (soundNodes ?s ! i) = near p (soundNodes r ! i)" for p
    using node by (simp add: near_def)
  have shift: "(\<exists>j. 1 \<le> j \<and> j \<le> k \<and> near (x + real j / 2) (soundNodes r ! i)) =
               (\<exists>j<k. near (x + real (Suc j) / 2) (soundNodes r ! i))"
  proof
    assume "\<exists>j. 1 \<le> j \<and> j \<le> k \<and> near (x + real j / 2) (soundNodes r ! i)"
    then obtain j where j: "1 \<le> j" "j \<le> k" "near (x + real j / 2) (soundNodes r ! i)"
      by blast
    then obtain j' where "j = Suc j'"
      by (cases j) simp_all
    with j have "j' < k" "near (x + real (Suc j') / 2) (soundNodes r ! i)"
      by simp_all
    then show "\<exists>j<k. near (x + real (Suc j) / 2) (soundNodes r ! i)"
      by blast
  next
    assume "\<exists>j<k. near (x + real (Suc j) / 2) (soundNodes r ! i)"
    then obtain j where "j < k" "near (x + real (Suc j) / 2) (soundNodes r ! i)"
      by blast
    then show "\<exists>j. 1 \<le> j \<and> j \<le> k \<and> near (x + real j / 2) (soundNodes r ! i)"
      by (intro exI [of _ "Suc j"]) simp
  qed
  have "fires T d ?s i =
      ((wraps (x + real k / 2) \<or> \<not> hasBeenTriggered (soundNodes ?s ! i))
        \<and> near (nextWand (x + real k / 2)) (soundNodes ?s ! i))"
    using fires_flag [OF _ assms(2) w, of i T] assms(1,4) by simp
  then show ?thesis
    unfolding nx nearEq using nw node shift by auto
qed

lemma first_unique:
  fixes Q :: "nat \<Rightarrow> bool"
  assumes "\<exists>m<K. Q m"
  shows "\<exists>!k. k < K \<and> (\<forall>j<k. \<not> Q j) \<and> Q k"
proof -
  from assms obtain m where m: "m < K" "Q m"
    by blast
  let ?k = "LEAST m. Q m"
  have "Q ?k"
    using m(2) by (rule LeastI)
  moreover have "?k < K"
    using Least_le [of Q m, OF m(2)] m(1) by simp
  moreover have "\<forall>j<?k. \<not> Q j"
    using not_less_Least by blast
  ultimately have ex: "?k < K \<and> (\<forall>j<?k. \<not> Q j) \<and> Q ?k"
    by blast
  show ?thesis
  proof (rule ex1I [of _ ?k])
    show "?k < K \<and> (\<forall>j<?k. \<not> Q j) \<and> Q ?k"
      by (rule ex)
  next
    fix k
    assume k: "k < K \<and> (\<forall>j<k. \<not> Q j) \<and> Q k"
    show "k = ?k"
    proof (rule linorder_cases [of k ?k])
      assume "k < ?k"
      with ex k show ?thesis by blast
    next
      assume "?k < k"
      with ex k show ?thesis by blast
    qed simp
  qed
qed

lemma reach:
  fixes px :: real
  assumes "-100 \<le> px" "px \<le> 100"
  shows "\<exists>m<400. \<bar>px - (-100 + real (Suc m) / 2)\<bar> \<le> 1 / 2"
proof (cases "px \<le> -99")
  case True
  have one: "real (Suc 0) = 1"
    by simp
  have "\<bar>px - (-100 + real (Suc 0) / 2)\<bar> \<le> 1 / 2"
    unfolding one using True assms(1) by linarith
  then show ?thesis
    by (intro exI [of _ 0]) simp
next
  case False
  define t where "t = 2 * (px + 100) - 1"
  define m where "m = nat \<lceil>t\<rceil>"
  have t: "0 < t" "t \<le> 399"
    using False assms(2) by (simp_all add: t_def)
  have c0: "0 \<le> \<lceil>t\<rceil>"
    using t(1) by (simp add: order_less_imp_le)
  have rm: "real m = of_int \<lceil>t\<rceil>"
    unfolding m_def using c0 by simp
  have up: "real m < t + 1" and lo: "t \<le> real m"
    unfolding rm by linarith+
  have "\<lceil>t\<rceil> \<le> 399"
    using t(2) by (simp add: ceiling_le_iff)
  then have "m < 400"
    unfolding m_def by linarith
  moreover have "\<bar>px - (-100 + real (Suc m) / 2)\<bar> \<le> 1 / 2"
    using up lo unfolding t_def by (simp add: add_divide_distrib)
  ultimately show ?thesis
    by blast
qed

lemma reach_near:
  assumes "-100 \<le> v_x (position n)" "v_x (position n) \<le> 100"
  shows "\<exists>m<400. near (-100 + real (Suc m) / 2) n"
proof -
  from reach [OF assms] obtain m where
    m: "m < 400" "\<bar>v_x (position n) - (-100 + real (Suc m) / 2)\<bar> \<le> 1 / 2"
    by blast
  have "(1 / 2 :: real) < 1 - 1 / 2 ^ 54"
    by simp
  with m(2) have "near (-100 + real (Suc m) / 2) n"
    unfolding near_iff by linarith
  with m(1) show ?thesis
    by blast
qed

lemma wrap_tick:
  assumes "rendering r" "isGamePlaying d" "wandGroup r = Some 100" "i < length (soundNodes r)"
  shows "wandGroup (animate T d r) = Some (-100)"
    and "position (soundNodes (animate T d r) ! i) = position (soundNodes r ! i)"
    and "hasBeenTriggered (soundNodes (animate T d r) ! i) = near (-100) (soundNodes r ! i)"
    and "fires T d r i = near (-100) (soundNodes r ! i)"
proof -
  have w: "wraps 100" "nextWand 100 = -100"
    by (simp_all add: wraps_def nextWand_def planeSize_def)
  show "wandGroup (animate T d r) = Some (-100)"
    using animate_playing(1) [OF assms(1-3), of T] w by simp
  have n: "soundNodes (animate T d r) ! i = stepNode T 100 (soundNodes r ! i)"
    using animate_playing(2) [OF assms(1-3), of T] assms(4) by simp
  show "position (soundNodes (animate T d r) ! i) = position (soundNodes r ! i)"
    unfolding n by simp
  show "hasBeenTriggered (soundNodes (animate T d r) ! i) = near (-100) (soundNodes r ! i)"
    unfolding n stepNode_flag using w by simp
  show "fires T d r i = near (-100) (soundNodes r ! i)"
    using fires_flag [OF assms, of T] w by simp
qed

lemma wrap_sweep_fires:
  assumes "rendering r" "isGamePlaying d" "wandGroup r = Some 100" "i < length (soundNodes r)"
    and "k < 401"
  shows "fires T d (ticks T (replicate k d) r) i =
           ((\<forall>j<k. \<not> near (-100 + real j / 2) (soundNodes r ! i)) \<and>
            near (-100 + real k / 2) (soundNodes r ! i))"
proof (cases k)
  case 0
  then show ?thesis
    using wrap_tick(4) [OF assms(1-4), of T] by simp
next
  case (Suc k')
  let ?r1 = "animate T d r"
  note first = wrap_tick [OF assms(1-4), of T]
  have nearEq: "near p (soundNodes ?r1 ! i) = near p (soundNodes r ! i)" for p
    using first(2) by (simp add: near_def)
  have le: "-100 + real (Suc k') / 2 \<le> planeSize / 2"
    using assms(5) Suc by (simp add: planeSize_def)
  have "fires T d (ticks T (replicate k' d) ?r1) i =
           (\<not> hasBeenTriggered (soundNodes ?r1 ! i) \<and>
            (\<forall>j<k'. \<not> near (-100 + real (Suc j) / 2) (soundNodes ?r1 ! i)) \<and>
            near (-100 + real (Suc k') / 2) (soundNodes ?r1 ! i))"
    using sweep_fires [OF _ assms(2) first(1) _ le, of i T] assms(1,4) by simp
  then show ?thesis
    unfolding Suc All_less_Suc2 nearEq first(3) by simp
qed

text \<open>
  Claim C1. A node with \<open>position.x\<close> in \<open>[-100, 100]\<close> is triggered in exactly one frame
  of a sweep, wherever it stands in \<open>soundNodes\<close> and whatever else the list holds. The
  first sweep is the 400 frames that take the wand from \<open>-100\<close> to \<open>100\<close>, the node not
  yet triggered; every later sweep starts with the frame that wraps the wand from \<open>100\<close>
  back to \<open>-100\<close> and has 401 frames, whatever the flag was before. At the end of the
  sweep the wand is at \<open>100\<close> and the flag is set.
\<close>

theorem sweep_triggers_once:
  assumes "rendering refs" and "isGamePlaying d" and "i < length (soundNodes refs)"
    and "-100 \<le> v_x (position (soundNodes refs ! i))"
    and "v_x (position (soundNodes refs ! i)) \<le> 100"
  shows "(wandGroup refs = Some (-100) \<and> \<not> hasBeenTriggered (soundNodes refs ! i) \<longrightarrow>
            (\<exists>!k. k < 400 \<and> fires T d (ticks T (replicate k d) refs) i)
            \<and> wandGroup (ticks T (replicate 400 d) refs) = Some 100
            \<and> hasBeenTriggered (soundNodes (ticks T (replicate 400 d) refs) ! i))
       \<and> (wandGroup refs = Some 100 \<longrightarrow>
            (\<exists>!k. k < 401 \<and> fires T d (ticks T (replicate k d) refs) i)
            \<and> wandGroup (ticks T (replicate 401 d) refs) = Some 100
            \<and> hasBeenTriggered (soundNodes (ticks T (replicate 401 d) refs) ! i))"
proof (intro conjI impI)
  let ?n = "soundNodes refs ! i"
  let ?Q = "\<lambda>j. near (-100 + real (Suc j) / 2) ?n"
  from reach_near [OF assms(4,5)] have hit: "\<exists>m<400. ?Q m" .
  {
    assume start: "wandGroup refs = Some (-100) \<and> \<not> hasBeenTriggered ?n"
    then have w: "wandGroup refs = Some (-100)" and f: "\<not> hasBeenTriggered ?n"
      by simp_all
    have "(k < 400 \<and> fires T d (ticks T (replicate k d) refs) i) =
          (k < 400 \<and> (\<forall>j<k. \<not> ?Q j) \<and> ?Q k)" for k
    proof (cases "k < 400")
      case True
      then have "-100 + real (Suc k) / 2 \<le> planeSize / 2"
        by (simp add: planeSize_def)
      from sweep_fires [OF assms(1,2) w assms(3) this, of T] f True show ?thesis
        by simp
    qed simp
    then show "\<exists>!k. k < 400 \<and> fires T d (ticks T (replicate k d) refs) i"
      using first_unique [of 400 ?Q, OF hit] by simp
    have le: "-100 + real 400 / 2 \<le> planeSize / 2"
      by (simp add: planeSize_def)
    show "wandGroup (ticks T (replicate 400 d) refs) = Some 100"
      using sweep_wand [OF assms(1,2) w le, of T] by simp
    from hit obtain m where "m < 400" "?Q m"
      by blast
    then have "\<exists>j. 1 \<le> j \<and> j \<le> 400 \<and> near (-100 + real j / 2) ?n"
      by (intro exI [of _ "Suc m"]) simp
    then show "hasBeenTriggered (soundNodes (ticks T (replicate 400 d) refs) ! i)"
      using sweep_node [OF assms(1,2) w assms(3) le, of T] by simp
  }
  {
    assume w: "wandGroup refs = Some 100"
    let ?R = "\<lambda>j. near (-100 + real j / 2) ?n"
    from hit obtain m0 where "m0 < 400" "?Q m0"
      by blast
    then have hitR: "\<exists>m<401. ?R m"
      by (intro exI [of _ "Suc m0"]) simp
    have "(k < 401 \<and> fires T d (ticks T (replicate k d) refs) i) =
          (k < 401 \<and> (\<forall>j<k. \<not> ?R j) \<and> ?R k)" for k
      using wrap_sweep_fires [OF assms(1,2) w assms(3), of k T] by blast
    then show "\<exists>!k. k < 401 \<and> fires T d (ticks T (replicate k d) refs) i"
      using first_unique [of 401 ?R, OF hitR] by simp
    let ?r1 = "animate T d refs"
    note first = wrap_tick [OF assms(1,2) w assms(3), of T]
    have n401: "(401::nat) = Suc 400"
      by simp
    have split: "ticks T (replicate 401 d) refs = ticks T (replicate 400 d) ?r1"
      unfolding n401 by (simp only: replicate_Suc ticks.simps)
    have le: "-100 + real 400 / 2 \<le> planeSize / 2"
      by (simp add: planeSize_def)
    show "wandGroup (ticks T (replicate 401 d) refs) = Some 100"
      unfolding split
      using sweep_wand [OF _ assms(2) first(1) le, of T] assms(1) by simp
    from hit obtain m where "m < 400" "?Q m"
      by blast
    then have "\<exists>j. 1 \<le> j \<and> j \<le> 400 \<and> near (-100 + real j / 2) (soundNodes ?r1 ! i)"
      using first(2) by (intro exI [of _ "Suc m"]) (simp add: near_def)
    then show "hasBeenTriggered (soundNodes (ticks T (replicate 401 d) refs) ! i)"
      unfolding split
      using sweep_node [OF _ assms(2) first(1) _ le, of i T] assms(1,3) by simp
  }
qed

theorem sweep_triggers_once_witness:
  "(\<exists>!k. k < 400 \<and> fires three160 (page ''synth'' True)
            (ticks three160 (replicate k (page ''synth'' True)) (scenario three160)) 0)
   \<and> wandGroup (ticks three160 (replicate 400 (page ''synth'' True)) (scenario three160)) = Some 100
   \<and> (\<exists>!k. k < 401 \<and> fires three160 (page ''synth'' True)
            (ticks three160 (replicate k (page ''synth'' True))
               ((scenario three160)\<lparr>wandGroup := Some 100\<rparr>)) 0)"
  using sweep_triggers_once [of "scenario three160" "page ''synth'' True" 0 three160]
    sweep_triggers_once [of "(scenario three160)\<lparr>wandGroup := Some 100\<rparr>" "page ''synth'' True" 0 three160]
  by simp

subsection \<open>The scenario, frame by frame\<close>

lemma near_grid:
  assumes "v_x (position n) = -100 + real c / 2"
  shows "near (-100 + real j / 2) n = (c < j + 2 \<and> j < c + 2)"
proof
  assume "near (-100 + real j / 2) n"
  then have "\<bar>real c / 2 - real j / 2\<bar> < 1"
    unfolding near_iff assms by simp
  then have "real c < real j + 2" "real j < real c + 2"
    by (simp_all add: abs_less_iff field_simps)
  then show "c < j + 2 \<and> j < c + 2"
    by linarith
next
  assume "c < j + 2 \<and> j < c + 2"
  then have "real c \<le> real j + 1" "real j \<le> real c + 1"
    by linarith+
  then have "\<bar>real c / 2 - real j / 2\<bar> \<le> 1 / 2"
    by (simp add: abs_le_iff field_simps)
  moreover have "(1 / 2 :: real) < 1 - 1 / 2 ^ 54"
    by simp
  ultimately show "near (-100 + real j / 2) n"
    unfolding near_iff assms by simp
qed

lemma fires_effect:
  assumes "rendering r" "isGamePlaying d" "wandGroup r = Some x" "i < length (soundNodes r)"
    and "fires T d r i"
  shows "soundNodes (animate T d r) ! i = triggerNode T (beforeDetect T x (soundNodes r ! i))"
proof -
  have "hits (nextWand x) (beforeDetect T x (soundNodes r ! i))"
    using fires_node [OF assms(1-4), of T] assms(5) by simp
  then show ?thesis
    using animate_playing(2) [OF assms(1-3), of T] assms(4)
    by (simp add: stepNode_def stepHit_def)
qed

lemma triggerNode_fields [simp]:
  "hasBeenTriggered (triggerNode T n)"
  "emissive (triggerNode T n) = setHex T 0xffffff"
  "position (triggerNode T n) = position n"
  "utype (triggerNode T n) = utype n"
  "originalEmissive (triggerNode T n) = originalEmissive n"
  "scale (triggerNode T n) =
     (if utype n = ''kick'' then \<lparr>v_x = 1.2, v_y = 1.2, v_z = 1.2\<rparr> else scale n)"
  by (simp_all add: triggerNode_def Let_def)

lemma beforeDetect_fields [simp]:
  "position (beforeDetect T x n) = position n"
  "utype (beforeDetect T x n) = utype n"
  "originalEmissive (beforeDetect T x n) = originalEmissive n"
  "emissive (beforeDetect T x n) = emissive (decayNode T n)"
  "scale (beforeDetect T x n) = scale (decayNode T n)"
  "hasBeenTriggered (beforeDetect T x n) = (\<not> wraps x \<and> hasBeenTriggered n)"
  by (simp_all add: beforeDetect_def)

lemma scenario_sweep:
  assumes "k \<le> 400" "i < 3"
  shows "wandGroup (ticks T (replicate k (page ty True)) (scenario T)) = Some (-100 + real k / 2)"
    and "position (soundNodes (ticks T (replicate k (page ty True)) (scenario T)) ! i)
           = position (soundNodes (scenario T) ! i)"
    and "utype (soundNodes (ticks T (replicate k (page ty True)) (scenario T)) ! i)
           = utype (soundNodes (scenario T) ! i)"
    and "hasBeenTriggered (soundNodes (ticks T (replicate k (page ty True)) (scenario T)) ! i)
           = (\<exists>j. 1 \<le> j \<and> j \<le> k \<and> near (-100 + real j / 2) (soundNodes (scenario T) ! i))"
proof -
  have le: "-100 + real k / 2 \<le> planeSize / 2"
    using assms(1) by (simp add: planeSize_def)
  have f0: "\<not> hasBeenTriggered (soundNodes (scenario T) ! i)"
    using assms(2) scenario_nodes(7-9) [of T] by (auto simp: less_Suc_eq numeral_3_eq_3 numeral_2_eq_2)
  show "wandGroup (ticks T (replicate k (page ty True)) (scenario T)) = Some (-100 + real k / 2)"
    using sweep_wand [OF _ _ _ le, of "scenario T" "page ty True" T] by simp
  note n = sweep_node [OF _ _ _ _ le, of "scenario T" "page ty True" i T]
  show "position (soundNodes (ticks T (replicate k (page ty True)) (scenario T)) ! i)
           = position (soundNodes (scenario T) ! i)"
    using n assms(2) by simp
  show "utype (soundNodes (ticks T (replicate k (page ty True)) (scenario T)) ! i)
           = utype (soundNodes (scenario T) ! i)"
    using n assms(2) by simp
  show "hasBeenTriggered (soundNodes (ticks T (replicate k (page ty True)) (scenario T)) ! i)
           = (\<exists>j. 1 \<le> j \<and> j \<le> k \<and> near (-100 + real j / 2) (soundNodes (scenario T) ! i))"
    using n assms(2) f0 by simp
qed

lemma scenario_fires:
  assumes "k < 400" "i < 3"
  shows "fires T (page ty True) (ticks T (replicate k (page ty True)) (scenario T)) i =
           ((\<forall>j<k. \<not> near (-100 + real (Suc j) / 2) (soundNodes (scenario T) ! i)) \<and>
            near (-100 + real (Suc k) / 2) (soundNodes (scenario T) ! i))"
proof -
  have le: "-100 + real (Suc k) / 2 \<le> planeSize / 2"
    using assms(1) by (simp add: planeSize_def)
  have f0: "\<not> hasBeenTriggered (soundNodes (scenario T) ! i)"
    using assms(2) scenario_nodes(7-9) [of T] by (auto simp: less_Suc_eq numeral_3_eq_3 numeral_2_eq_2)
  show ?thesis
    using sweep_fires [OF _ _ _ _ le, of "scenario T" "page ty True" i T] assms(2) f0 by simp
qed

lemma scenario_flag:
  assumes "k \<le> 400" "i < 3" "2 \<le> c"
    and "v_x (position (soundNodes (scenario T) ! i)) = -100 + real c / 2"
  shows "hasBeenTriggered (soundNodes (ticks T (replicate k (page ty True)) (scenario T)) ! i)
           = (c \<le> Suc k)"
proof -
  have "hasBeenTriggered (soundNodes (ticks T (replicate k (page ty True)) (scenario T)) ! i) =
        (\<exists>j. 1 \<le> j \<and> j \<le> k \<and> near (-100 + real j / 2) (soundNodes (scenario T) ! i))"
    by (rule scenario_sweep(4)) (use assms in simp_all)
  also have "\<dots> = (\<exists>j. 1 \<le> j \<and> j \<le> k \<and> c < j + 2 \<and> j < c + 2)"
    unfolding near_grid [OF assms(4)] ..
  also have "\<dots> = (c \<le> Suc k)"
  proof
    assume "\<exists>j. 1 \<le> j \<and> j \<le> k \<and> c < j + 2 \<and> j < c + 2"
    then show "c \<le> Suc k" by auto
  next
    assume "c \<le> Suc k"
    then have "1 \<le> c - 1 \<and> c - 1 \<le> k \<and> c < (c - 1) + 2 \<and> c - 1 < c + 2"
      using assms(3) by auto
    then show "\<exists>j. 1 \<le> j \<and> j \<le> k \<and> c < j + 2 \<and> j < c + 2"
      by blast
  qed
  finally show ?thesis .
qed

lemma scenario_trigger:
  assumes "k < 400" "i < 3" "2 \<le> c"
    and "v_x (position (soundNodes (scenario T) ! i)) = -100 + real c / 2"
  shows "fires T (page ty True) (ticks T (replicate k (page ty True)) (scenario T)) i
           = (Suc (Suc k) = c)"
proof -
  have nr: "near (-100 + real (Suc j) / 2) (soundNodes (scenario T) ! i) = (c < j + 3 \<and> j < c + 1)" for j
    unfolding near_grid [OF assms(4)] by auto
  have "fires T (page ty True) (ticks T (replicate k (page ty True)) (scenario T)) i =
          ((\<forall>j<k. \<not> (c < j + 3 \<and> j < c + 1)) \<and> c < k + 3 \<and> k < c + 1)"
    unfolding scenario_fires [OF assms(1,2)] nr ..
  also have "\<dots> = (Suc (Suc k) = c)"
  proof
    assume a: "(\<forall>j<k. \<not> (c < j + 3 \<and> j < c + 1)) \<and> c < k + 3 \<and> k < c + 1"
    show "Suc (Suc k) = c"
    proof (rule ccontr)
      assume "Suc (Suc k) \<noteq> c"
      with a assms(3) have "c \<le> Suc k" "1 \<le> k"
        by linarith+
      then obtain j where j: "k = Suc j"
        by (cases k) simp_all
      with \<open>c \<le> Suc k\<close> a have "j < k" "c < j + 3" "j < c + 1"
        by linarith+
      with a show False by blast
    qed
  next
    assume "Suc (Suc k) = c"
    then show "(\<forall>j<k. \<not> (c < j + 3 \<and> j < c + 1)) \<and> c < k + 3 \<and> k < c + 1"
      by auto
  qed
  finally show ?thesis .
qed

lemma scenario_halves:
  "v_x (position (soundNodes (scenario T) ! 0)) = -100 + real 100 / 2"
  "v_x (position (soundNodes (scenario T) ! Suc 0)) = -100 + real 200 / 2"
  "v_x (position (soundNodes (scenario T) ! 2)) = -100 + real 300 / 2"
  by simp_all

text \<open>
  Claim C6. In the scenario, with Play held, the synth at \<open>-50\<close> is triggered in frame 99
  (not triggered after 98 frames, triggered after 99), the pluck at \<open>0\<close> in frame 199, the
  kick at \<open>50\<close> in frame 299, which leaves its scale at \<open>1.2\<close>. After 400 frames the wand
  is at \<open>100\<close> and all three flags are set; frame 401 puts the wand back at \<open>-100\<close> and
  leaves all three flags cleared.
\<close>

theorem scenario_timeline:
  "fires T (page ty True) (ticks T (replicate 98 (page ty True)) (scenario T)) 0
   \<and> \<not> hasBeenTriggered (soundNodes (ticks T (replicate 98 (page ty True)) (scenario T)) ! 0)
   \<and> hasBeenTriggered (soundNodes (ticks T (replicate 99 (page ty True)) (scenario T)) ! 0)
   \<and> fires T (page ty True) (ticks T (replicate 198 (page ty True)) (scenario T)) 1
   \<and> \<not> hasBeenTriggered (soundNodes (ticks T (replicate 198 (page ty True)) (scenario T)) ! 1)
   \<and> hasBeenTriggered (soundNodes (ticks T (replicate 199 (page ty True)) (scenario T)) ! 1)
   \<and> fires T (page ty True) (ticks T (replicate 298 (page ty True)) (scenario T)) 2
   \<and> \<not> hasBeenTriggered (soundNodes (ticks T (replicate 298 (page ty True)) (scenario T)) ! 2)
   \<and> hasBeenTriggered (soundNodes (ticks T (replicate 299 (page ty True)) (scenario T)) ! 2)
   \<and> scale (soundNodes (ticks T (replicate 299 (page ty True)) (scenario T)) ! 2)
        = \<lparr>v_x = 1.2, v_y = 1.2, v_z = 1.2\<rparr>
   \<and> wandGroup (ticks T (replicate 400 (page ty True)) (scenario T)) = Some 100
   \<and> map hasBeenTriggered (soundNodes (ticks T (replicate 400 (page ty True)) (scenario T)))
        = [True, True, True]
   \<and> wandGroup (ticks T (replicate 401 (page ty True)) (scenario T)) = Some (-100)
   \<and> map hasBeenTriggered (soundNodes (ticks T (replicate 401 (page ty True)) (scenario T)))
        = [False, False, False]"
proof -
  let ?d = "page ty True"
  let ?run = "\<lambda>k. ticks T (replicate k ?d) (scenario T)"
  note h = scenario_halves [of T]
  have f0: "fires T ?d (?run 98) 0"
    using scenario_trigger [OF _ _ _ h(1), of 98 ty] by simp
  have f1: "fires T ?d (?run 198) 1"
    using scenario_trigger [OF _ _ _ h(2), of 198 ty] by simp
  have f2: "fires T ?d (?run 298) 2"
    using scenario_trigger [OF _ _ _ h(3), of 298 ty] by simp
  have g0: "\<not> hasBeenTriggered (soundNodes (?run 98) ! 0)" "hasBeenTriggered (soundNodes (?run 99) ! 0)"
    using scenario_flag [OF _ _ _ h(1), of 98 ty] scenario_flag [OF _ _ _ h(1), of 99 ty] by simp_all
  have g1: "\<not> hasBeenTriggered (soundNodes (?run 198) ! 1)" "hasBeenTriggered (soundNodes (?run 199) ! 1)"
    using scenario_flag [OF _ _ _ h(2), of 198 ty] scenario_flag [OF _ _ _ h(2), of 199 ty] by simp_all
  have g2: "\<not> hasBeenTriggered (soundNodes (?run 298) ! 2)" "hasBeenTriggered (soundNodes (?run 299) ! 2)"
    using scenario_flag [OF _ _ _ h(3), of 298 ty] scenario_flag [OF _ _ _ h(3), of 299 ty] by simp_all
  have n299: "(299::nat) = Suc 298" and n401: "(401::nat) = Suc 400"
    by simp_all
  have w298: "wandGroup (?run 298) = Some (-100 + real 298 / 2)"
    by (rule scenario_sweep(1) [of 298 2]) simp_all
  have "soundNodes (?run 299) ! 2 =
        triggerNode T (beforeDetect T (-100 + real 298 / 2) (soundNodes (?run 298) ! 2))"
    unfolding n299 run_Suc
    by (rule fires_effect [OF _ _ w298 _ f2]) simp_all
  moreover have "utype (soundNodes (?run 298) ! 2) = ''kick''"
    using scenario_sweep(3) [of 298 2 T ty] by simp
  ultimately have sc: "scale (soundNodes (?run 299) ! 2) = \<lparr>v_x = 1.2, v_y = 1.2, v_z = 1.2\<rparr>"
    by simp
  have w400: "wandGroup (?run 400) = Some 100"
    using scenario_sweep(1) [of 400 0 T ty] by simp
  have len: "length (soundNodes (?run k)) = 3" for k
    by simp
  have three: "xs = [xs ! 0, xs ! 1, xs ! 2]" if "length xs = 3" for xs :: "bool list"
    using that by (cases xs; cases "tl xs"; cases "tl (tl xs)") (auto simp: numeral_2_eq_2)
  have fl400: "map hasBeenTriggered (soundNodes (?run 400)) = [True, True, True]"
    using three [of "map hasBeenTriggered (soundNodes (?run 400))"]
      scenario_flag [OF _ _ _ h(1), of 400 ty] scenario_flag [OF _ _ _ h(2), of 400 ty]
      scenario_flag [OF _ _ _ h(3), of 400 ty]
    by simp
  have w401: "wandGroup (?run 401) = Some (-100)"
    unfolding n401 run_Suc
    by (rule wrap_tick(1) [OF _ _ w400, of _ 0]) simp_all
  have fl: "hasBeenTriggered (soundNodes (?run 401) ! i) = near (-100) (soundNodes (scenario T) ! i)"
    if "i < 3" for i
  proof -
    have "hasBeenTriggered (soundNodes (?run 401) ! i) = near (-100) (soundNodes (?run 400) ! i)"
      unfolding n401 run_Suc
      by (rule wrap_tick(3) [OF _ _ w400]) (use that in simp_all)
    then show ?thesis
      using scenario_sweep(2) [of 400 i T ty] that by (simp add: near_def)
  qed
  have fl401: "map hasBeenTriggered (soundNodes (?run 401)) = [False, False, False]"
    using three [of "map hasBeenTriggered (soundNodes (?run 401))"] fl [of 0] fl [of 1] fl [of 2]
    by (simp add: near_iff)
  show ?thesis
    using f0 f1 f2 g0 g1 g2 sc w400 fl400 w401 fl401 by simp
qed

theorem scenario_timeline_witness:
  "fires three160 (page ''synth'' True)
     (ticks three160 (replicate 98 (page ''synth'' True)) (scenario three160)) 0
   \<and> wandGroup (ticks three160 (replicate 401 (page ''synth'' True)) (scenario three160)) = Some (-100)"
  using scenario_timeline [of three160 "''synth''"]
  by simp

subsection \<open>One frame while playing\<close>

lemma animate_order:
  assumes "rendering r" "isGamePlaying d" "wandGroup r = Some x"
  shows "animate T d r = triggerPass T (advanceWand x (decayPass T r))"
  using assms by (simp add: animate_def decayPass_def)

lemma advanceWand_wand:
  "wandGroup (advanceWand x r) = Some (nextWand x)"
  by (simp add: advanceWand_def nextWand_def wraps_def Let_def)

lemma advanceWand_nodes:
  "soundNodes (advanceWand x r) =
     (if wraps x then map (\<lambda>n. n\<lparr>hasBeenTriggered := False\<rparr>) (soundNodes r) else soundNodes r)"
  by (simp add: advanceWand_def wraps_def Let_def)

lemma kickAhead_fires: "fires T (page ty True) kickAhead 0"
  by (simp add: fires_flag [of kickAhead _ 49] near_iff nextWand_def wraps_def planeSize_def)

text \<open>The lone kick with the wand at \<open>49\<close> is the engine 298 frames after Play.\<close>

lemma animate_silent_frame:
  assumes "rendering r" "isGamePlaying d" "wandGroup r = Some x" "soundBuffers r = Map.empty"
  shows "animate T d r = r\<lparr>wandGroup := Some (nextWand x), soundNodes := map (stepNode T x) (soundNodes r)\<rparr>"
proof -
  let ?r2 = "advanceWand x (decayPass T r)"
  have "soundBuffers ?r2 = Map.empty"
    using assms(4) by (simp add: advanceWand_def decayPass_def Let_def)
  then have "snd (triggerLoop T (nextWand x) (soundNodes ?r2) ?r2) = ?r2"
    by (rule triggerLoop_silent)
  then have "triggerPass T ?r2 = ?r2\<lparr>soundNodes := map (stepHit T (nextWand x)) (soundNodes ?r2)\<rparr>"
    by (simp add: triggerPass_def advanceWand_wand Let_def triggerLoop_nodes)
  then show ?thesis
    unfolding animate_order [OF assms(1-3)]
    by (simp add: advanceWand_def decayPass_def Let_def nextWand_def wraps_def stepNode_def beforeDetect_def)
qed

lemma kickAhead_reached:
  "ticks three160 (replicate 298 (page ''kick'' True)) (placed three160 ''kick'' 50 startGame)
     = kickAhead"
proof -
  let ?s = "placed three160 ''kick'' 50 startGame"
  let ?d = "page ''kick'' True"
  obtain n where n: "soundNodes ?s = [n]" and nk: "utype n = ''kick''" "v_x (position n) = 50"
    "scale n = \<lparr>v_x = 1, v_y = 1, v_z = 1\<rparr>" "\<not> hasBeenTriggered n"
    "getHex three160 (emissive n) = originalEmissive n"
    by (simp add: startGame_def placed_def placeInstrument_def page_type placeNode_def
        switchType_def Mesh_def)
  have rest: "decayNode three160 n = n"
    using nk by (simp add: decayNode_def Let_def)
  have step: "stepNode three160 x n = n" if "x + 0.5 \<le> 49" for x
    using that nk rest
    by (simp add: stepNode_def stepHit_def beforeDetect_def hits_near near_iff wraps_def nextWand_def
        planeSize_def)
  have run: "k \<le> 298 \<Longrightarrow> ticks three160 (replicate k ?d) ?s = ?s\<lparr>wandGroup := Some (-100 + real k / 2)\<rparr>" for k
  proof (induction k)
    case 0
    then show ?case
      by (simp add: startGame_def planeSize_def placed_def placeInstrument_def placeNode_def page_type switchType_def)
  next
    case (Suc k)
    let ?r = "?s\<lparr>wandGroup := Some (-100 + real k / 2)\<rparr>"
    have ih: "ticks three160 (replicate k ?d) ?s = ?r"
      using Suc by simp
    have sk: "real (Suc k) / 2 = real k / 2 + 1 / 2"
      by (simp add: add_divide_distrib)
    have le: "-100 + real k / 2 + 0.5 \<le> 49"
      using Suc.prems by simp
    then have nw: "nextWand (-100 + real k / 2) = -100 + real (Suc k) / 2"
      unfolding sk by (simp add: nextWand_def wraps_def planeSize_def)
    have "animate three160 ?d ?r = ?r\<lparr>wandGroup := Some (nextWand (-100 + real k / 2)),
             soundNodes := map (stepNode three160 (-100 + real k / 2)) (soundNodes ?r)\<rparr>"
      by (rule animate_silent_frame) (simp_all add: startGame_def)
    then show ?case
      unfolding run_Suc ih nw using n step [OF le] by simp
  qed
  show ?thesis
    using run [of 298] by (simp add: kickAhead_def)
qed

lemma sweptScenario_state:
  "rendering sweptScenario" "wandGroup sweptScenario = Some 100"
  "length (soundNodes sweptScenario) = 3"
  "map hasBeenTriggered (soundNodes sweptScenario) = [True, True, True]"
  "v_x (position (soundNodes sweptScenario ! 0)) = -50"
  "v_x (position (soundNodes sweptScenario ! Suc 0)) = 0"
  "v_x (position (soundNodes sweptScenario ! 2)) = 50"
proof -
  show r: "rendering sweptScenario" and l: "length (soundNodes sweptScenario) = 3"
    by (simp_all add: sweptScenario_def)
  show "wandGroup sweptScenario = Some 100"
    unfolding sweptScenario_def using scenario_sweep(1) [of 400 0 three160 "''kick''"] by simp
  have p: "position (soundNodes sweptScenario ! i) = position (soundNodes (scenario three160) ! i)"
    if "i < 3" for i
    unfolding sweptScenario_def by (rule scenario_sweep(2)) (use that in simp_all)
  show "v_x (position (soundNodes sweptScenario ! 0)) = -50"
    "v_x (position (soundNodes sweptScenario ! Suc 0)) = 0"
    "v_x (position (soundNodes sweptScenario ! 2)) = 50"
    by (simp_all add: p)
  have f0: "hasBeenTriggered (soundNodes sweptScenario ! 0)"
    unfolding sweptScenario_def
    using scenario_flag [of 400 0 100 three160 "''kick''"] by simp
  have f1: "hasBeenTriggered (soundNodes sweptScenario ! Suc 0)"
    unfolding sweptScenario_def
    using scenario_flag [of 400 "Suc 0" 200 three160 "''kick''"] by simp
  have f2: "hasBeenTriggered (soundNodes sweptScenario ! 2)"
    unfolding sweptScenario_def
    using scenario_flag [of 400 2 300 three160 "''kick''"] by simp
  have "soundNodes sweptScenario
      = [soundNodes sweptScenario ! 0, soundNodes sweptScenario ! Suc 0, soundNodes sweptScenario ! 2]"
    using l by (auto simp: list_eq_iff_nth_eq less_Suc_eq numeral_3_eq_3 numeral_2_eq_2)
  then have "map hasBeenTriggered (soundNodes sweptScenario)
      = [hasBeenTriggered (soundNodes sweptScenario ! 0),
         hasBeenTriggered (soundNodes sweptScenario ! Suc 0),
         hasBeenTriggered (soundNodes sweptScenario ! 2)]"
    by (metis list.simps(8,9))
  then show "map hasBeenTriggered (soundNodes sweptScenario) = [True, True, True]"
    using f0 f1 f2 by simp
qed

lemma edgeKick_state:
  "rendering edgeKick" "wandGroup edgeKick = Some (-100)" "length (soundNodes edgeKick) = 1"
  "v_x (position (soundNodes edgeKick ! 0)) = -100"
  "\<not> hasBeenTriggered (soundNodes edgeKick ! 0)"
  by (simp_all add: edgeKick_def startGame_def planeSize_def placed_def placeInstrument_def
      page_type placeNode_def switchType_def Mesh_def)

lemma sweptEdgeKick_state:
  "rendering sweptEdgeKick" "wandGroup sweptEdgeKick = Some 100"
  "length (soundNodes sweptEdgeKick) = 1"
  "v_x (position (soundNodes sweptEdgeKick ! 0)) = -100"
  "hasBeenTriggered (soundNodes sweptEdgeKick ! 0)"
proof -
  let ?d = "page ''kick'' True"
  show "rendering sweptEdgeKick" "length (soundNodes sweptEdgeKick) = 1"
    by (simp_all add: sweptEdgeKick_def edgeKick_state)
  have le: "-100 + real 400 / 2 \<le> planeSize / 2"
    by (simp add: planeSize_def)
  show "wandGroup sweptEdgeKick = Some 100"
    unfolding sweptEdgeKick_def
    using sweep_wand [OF edgeKick_state(1) _ edgeKick_state(2) le, of ?d three160] by simp
  note n = sweep_node [OF edgeKick_state(1) _ edgeKick_state(2) _ le, of ?d 0 three160]
  have near1: "near (-100 + real 1 / 2) (soundNodes edgeKick ! 0)"
    by (simp add: near_iff edgeKick_state)
  show "v_x (position (soundNodes sweptEdgeKick ! 0)) = -100"
    unfolding sweptEdgeKick_def using n by (simp add: edgeKick_state)
  have "\<exists>j. 1 \<le> j \<and> j \<le> 400 \<and> near (-100 + real j / 2) (soundNodes edgeKick ! 0)"
    by (rule exI [of _ 1]) (use near1 in simp)
  then show "hasBeenTriggered (soundNodes sweptEdgeKick ! 0)"
    unfolding sweptEdgeKick_def using n by (simp add: edgeKick_state)
qed

text \<open>
  Claim C2. In a frame with Play held the wand moves by \<open>0.5\<close>. If that takes it beyond
  \<open>100\<close> it is put at \<open>-100\<close> and, in the engine state the second loop starts from, no
  node has \<open>hasBeenTriggered\<close> set: in such a frame a node is triggered exactly when the
  test of line 301 holds for it at \<open>-100\<close>, whatever its flag was, and when the frame
  ends the flag is set on these nodes and clear on every other. In a frame that does not
  wrap the flags reach the second loop as they were, and when the frame ends a flag is
  set if it was set before or the test holds at the wand's new position.
\<close>

theorem advance_and_wrap:
  assumes "rendering refs" and "isGamePlaying d" and "wandGroup refs = Some x"
  shows "(x + 0.5 \<le> 100 \<longrightarrow>
            wandGroup (animate T d refs) = Some (x + 0.5)
          \<and> map hasBeenTriggered (soundNodes (advanceWand x (decayPass T refs)))
              = map hasBeenTriggered (soundNodes refs)
          \<and> (\<forall>i < length (soundNodes refs).
                hasBeenTriggered (soundNodes (animate T d refs) ! i)
                  = (hasBeenTriggered (soundNodes refs ! i)
                     \<or> \<bar>sub64 (v_x (position (soundNodes refs ! i))) (x + 0.5)\<bar> < 1.0)))
       \<and> (x + 0.5 > 100 \<longrightarrow>
            wandGroup (advanceWand x (decayPass T refs)) = Some (-100)
          \<and> (\<forall>n \<in> set (soundNodes (advanceWand x (decayPass T refs))). \<not> hasBeenTriggered n)
          \<and> wandGroup (animate T d refs) = Some (-100)
          \<and> (\<forall>i < length (soundNodes refs).
                fires T d refs i = (\<bar>sub64 (v_x (position (soundNodes refs ! i))) (-100)\<bar> < 1.0))
          \<and> (\<forall>i < length (soundNodes refs).
                hasBeenTriggered (soundNodes (animate T d refs) ! i)
                  = (\<bar>sub64 (v_x (position (soundNodes refs ! i))) (-100)\<bar> < 1.0)))
       \<and> animate T d refs = triggerPass T (advanceWand x (decayPass T refs))"
proof (intro conjI impI allI)
  show "animate T d refs = triggerPass T (advanceWand x (decayPass T refs))"
    by (rule animate_order [OF assms])
next
  assume "x + 0.5 \<le> 100"
  then have nw: "\<not> wraps x"
    by (simp add: wraps_def planeSize_def)
  show "wandGroup (animate T d refs) = Some (x + 0.5)"
    using animate_playing(1) [OF assms, of T] nw by (simp add: nextWand_def)
  show "map hasBeenTriggered (soundNodes (advanceWand x (decayPass T refs)))
          = map hasBeenTriggered (soundNodes refs)"
    using nw by (simp add: advanceWand_nodes decayPass_def o_def)
  fix i
  assume "i < length (soundNodes refs)"
  then have "soundNodes (animate T d refs) ! i = stepNode T x (soundNodes refs ! i)"
    using animate_playing(2) [OF assms, of T] by simp
  then show "hasBeenTriggered (soundNodes (animate T d refs) ! i)
                  = (hasBeenTriggered (soundNodes refs ! i)
                     \<or> \<bar>sub64 (v_x (position (soundNodes refs ! i))) (x + 0.5)\<bar> < 1.0)"
    using nw by (simp add: stepNode_flag near_def nextWand_def)
next
  assume "x + 0.5 > 100"
  then have w: "wraps x"
    by (simp add: wraps_def planeSize_def)
  then have nx: "nextWand x = -100"
    by (simp add: nextWand_def planeSize_def)
  show "wandGroup (advanceWand x (decayPass T refs)) = Some (-100)"
    by (simp add: advanceWand_wand nx)
  show "\<forall>n \<in> set (soundNodes (advanceWand x (decayPass T refs))). \<not> hasBeenTriggered n"
    using w by (simp add: advanceWand_nodes)
  show "wandGroup (animate T d refs) = Some (-100)"
    using animate_playing(1) [OF assms, of T] nx by simp
  fix i
  assume i: "i < length (soundNodes refs)"
  then show "fires T d refs i = (\<bar>sub64 (v_x (position (soundNodes refs ! i))) (-100)\<bar> < 1.0)"
    using fires_flag [OF assms, of i T] w nx by (simp add: near_def)
  from i have "soundNodes (animate T d refs) ! i = stepNode T x (soundNodes refs ! i)"
    using animate_playing(2) [OF assms, of T] by simp
  then show "hasBeenTriggered (soundNodes (animate T d refs) ! i)
               = (\<bar>sub64 (v_x (position (soundNodes refs ! i))) (-100)\<bar> < 1.0)"
    using w nx by (simp add: stepNode_flag near_def)
qed

theorem advance_and_wrap_witness:
  "(49::real) + 0.5 \<le> 100
   \<and> wandGroup (animate three160 (page ''kick'' True) kickAhead) = Some 49.5
   \<and> rendering sweptScenario
   \<and> wandGroup sweptScenario = Some 100
   \<and> (100::real) + 0.5 > 100
   \<and> map hasBeenTriggered (soundNodes sweptScenario) = [True, True, True]
   \<and> map hasBeenTriggered (soundNodes (advanceWand 100 (decayPass three160 sweptScenario)))
       = [False, False, False]
   \<and> wandGroup (animate three160 (page ''kick'' True) sweptScenario) = Some (-100)
   \<and> map hasBeenTriggered (soundNodes (animate three160 (page ''kick'' True) sweptScenario))
       = [False, False, False]
   \<and> wandGroup sweptEdgeKick = Some 100
   \<and> hasBeenTriggered (soundNodes sweptEdgeKick ! 0)
   \<and> fires three160 (page ''kick'' True) sweptEdgeKick 0
   \<and> hasBeenTriggered (soundNodes (animate three160 (page ''kick'' True) sweptEdgeKick) ! 0)"
proof -
  let ?d = "page ''kick'' True"
  have h: "rendering kickAhead" "isGamePlaying ?d" "wandGroup kickAhead = Some 49"
    by simp_all
  note a = advance_and_wrap [OF h, of three160, THEN conjunct1]
  have hs: "rendering sweptScenario" "isGamePlaying ?d" "wandGroup sweptScenario = Some 100"
    by (simp_all add: sweptScenario_state)
  note b = advance_and_wrap [OF hs, of three160, THEN conjunct2, THEN conjunct1]
  have he: "rendering sweptEdgeKick" "isGamePlaying ?d" "wandGroup sweptEdgeKick = Some 100"
    by (simp_all add: sweptEdgeKick_state)
  note c = advance_and_wrap [OF he, of three160, THEN conjunct2, THEN conjunct1]
  let ?mid = "soundNodes (advanceWand 100 (decayPass three160 sweptScenario))"
  let ?aft = "soundNodes (animate three160 ?d sweptScenario)"
  have lm: "length ?mid = 3"
    by (simp add: advanceWand_nodes decayPass_def sweptScenario_state)
  have "\<forall>n \<in> set ?mid. \<not> hasBeenTriggered n"
    using b by simp
  then have "map hasBeenTriggered ?mid = replicate (length ?mid) False"
    by (simp add: map_replicate_const [symmetric] cong: map_cong)
  then have mid: "map hasBeenTriggered ?mid = [False, False, False]"
    unfolding lm by (simp add: numeral_3_eq_3)
  have la: "length ?aft = 3"
    by (simp add: sweptScenario_state)
  have fa: "\<not> hasBeenTriggered (?aft ! i)" if "i < 3" for i
  proof -
    have "hasBeenTriggered (?aft ! i)
        = (\<bar>sub64 (v_x (position (soundNodes sweptScenario ! i))) (-100)\<bar> < 1.0)"
      using b that by (simp add: sweptScenario_state(3))
    also have "\<dots> = False"
      using that sweptScenario_state(5-7)
      by (auto simp: sub64_lt_one less_Suc_eq numeral_3_eq_3 numeral_2_eq_2)
    finally show ?thesis by simp
  qed
  have "map hasBeenTriggered ?aft = replicate (length ?aft) False"
    unfolding list_eq_iff_nth_eq using fa la by simp
  then have aft: "map hasBeenTriggered ?aft = [False, False, False]"
    unfolding la by (simp add: numeral_3_eq_3)
  have e1: "fires three160 ?d sweptEdgeKick 0"
    using c by (simp add: sweptEdgeKick_state sub64_lt_one)
  have e2: "hasBeenTriggered (soundNodes (animate three160 ?d sweptEdgeKick) ! 0)"
    using c by (simp add: sweptEdgeKick_state sub64_lt_one)
  have w1: "wandGroup (animate three160 ?d kickAhead) = Some 49.5"
    using a by simp
  have w2: "wandGroup (animate three160 ?d sweptScenario) = Some (-100)"
    using b by simp
  show ?thesis
    using w1 w2 mid aft e1 e2 by (simp add: sweptScenario_state sweptEdgeKick_state)
qed

lemma kickStruck_flag:
  "length (soundNodes kickStruck) = 1" "hasBeenTriggered (soundNodes kickStruck ! 0)"
proof -
  have "soundNodes kickStruck ! 0
          = triggerNode three160 (beforeDetect three160 49 (soundNodes kickAhead ! 0))"
    unfolding kickStruck_def
    by (rule fires_effect [OF _ _ _ _ kickAhead_fires]) simp_all
  then show "hasBeenTriggered (soundNodes kickStruck ! 0)"
    by simp
  show "length (soundNodes kickStruck) = 1"
    by (simp add: kickStruck_def)
qed

lemma grazedKick_state:
  "rendering grazedKick" "wandGroup grazedKick = Some (-1.5)"
  "length (soundNodes grazedKick) = 1"
  "v_x (position (soundNodes grazedKick ! 0)) = - (1 / 2 ^ 70)"
  "\<not> hasBeenTriggered (soundNodes grazedKick ! 0)"
proof -
  let ?d = "page ''kick'' True"
  let ?s = "placed three160 ''kick'' (- (1 / 2 ^ 70)) startGame"
  obtain n where n0: "soundNodes ?s = [n]" "v_x (position n) = - (1 / 2 ^ 70)" "\<not> hasBeenTriggered n"
    using placed_nodes [of "''kick''" three160 "- (1 / 2 ^ 70)" startGame]
    by (auto simp: startGame_def)
  have s: "rendering ?s" "wandGroup ?s = Some (-100)" "length (soundNodes ?s) = 1"
    "v_x (position (soundNodes ?s ! 0)) = - (1 / 2 ^ 70)"
    "\<not> hasBeenTriggered (soundNodes ?s ! 0)"
    using n0 by (simp_all add: startGame_def planeSize_def)
  show "rendering grazedKick" "length (soundNodes grazedKick) = 1"
    using s(1,3) by (simp_all add: grazedKick_def)
  have le: "-100 + real 197 / 2 \<le> planeSize / 2"
    by (simp add: planeSize_def)
  show "wandGroup grazedKick = Some (-1.5)"
    unfolding grazedKick_def
    using sweep_wand [OF s(1) _ s(2) le, of ?d three160] by simp
  have n: "position (soundNodes (ticks three160 (replicate 197 ?d) ?s) ! 0) = position (soundNodes ?s ! 0) \<and>
         utype (soundNodes (ticks three160 (replicate 197 ?d) ?s) ! 0) = utype (soundNodes ?s ! 0) \<and>
         hasBeenTriggered (soundNodes (ticks three160 (replicate 197 ?d) ?s) ! 0) =
           (hasBeenTriggered (soundNodes ?s ! 0) \<or>
            (\<exists>j. 1 \<le> j \<and> j \<le> 197 \<and> near (-100 + real j / 2) (soundNodes ?s ! 0)))"
    by (rule sweep_node [OF s(1) _ s(2) _ le]) (use s(3) in simp_all)
  show "v_x (position (soundNodes grazedKick ! 0)) = - (1 / 2 ^ 70)"
    unfolding grazedKick_def using n s(4) by simp
  have far: "\<not> near (-100 + real j / 2) (soundNodes ?s ! 0)" if "j \<le> 197" for j
  proof -
    have "real j \<le> 197"
      using that by simp
    then have "1 \<le> - (1 / 2 ^ 70) - (-100 + real j / 2)"
      by simp
    then show ?thesis
      unfolding near_iff s(4) by simp
  qed
  have "\<not> (\<exists>j. 1 \<le> j \<and> j \<le> 197 \<and> near (-100 + real j / 2) (soundNodes ?s ! 0))"
    using far by blast
  then show "\<not> hasBeenTriggered (soundNodes grazedKick ! 0)"
    unfolding grazedKick_def using n s(5) by simp
qed

text \<open>
  Claim C4. In a frame with Play held, a node whose flag is clear when the second loop
  reaches it (it was clear, or the frame wrapped) is triggered exactly when the test of
  line 301 holds: the binary64 difference of its \<open>position.x\<close> and the wand's new
  position is less than \<open>1.0\<close> in absolute value, which is the case exactly when the
  exact distance is below \<open>1 - 1 / 2 ^ 54\<close>. Being triggered sets the flag, sets the
  emissive colour to \<open>0xffffff\<close>, and sets the scale to \<open>1.2\<close> for a kick (leaving it
  alone otherwise). A node whose flag is set, in a frame that does not wrap, is not
  triggered: it only goes through the decay loop.
\<close>

theorem trigger_detection:
  assumes "rendering refs" and "isGamePlaying d" and "wandGroup refs = Some x"
    and "i < length (soundNodes refs)"
  shows "wandGroup (animate T d refs) = Some (nextWand x)
       \<and> (wraps x \<or> \<not> hasBeenTriggered (soundNodes refs ! i) \<longrightarrow>
            fires T d refs i = (\<bar>sub64 (v_x (position (soundNodes refs ! i))) (nextWand x)\<bar> < 1.0))
       \<and> (\<not> wraps x \<and> hasBeenTriggered (soundNodes refs ! i) \<longrightarrow>
            \<not> fires T d refs i \<and> soundNodes (animate T d refs) ! i = decayNode T (soundNodes refs ! i))
       \<and> (fires T d refs i \<longrightarrow>
            hasBeenTriggered (soundNodes (animate T d refs) ! i)
          \<and> emissive (soundNodes (animate T d refs) ! i) = setHex T 0xffffff
          \<and> (utype (soundNodes refs ! i) = ''kick'' \<longrightarrow>
               scale (soundNodes (animate T d refs) ! i) = \<lparr>v_x = 1.2, v_y = 1.2, v_z = 1.2\<rparr>)
          \<and> (utype (soundNodes refs ! i) \<noteq> ''kick'' \<longrightarrow>
               scale (soundNodes (animate T d refs) ! i) = scale (soundNodes refs ! i)))
       \<and> (\<not> fires T d refs i \<longrightarrow>
            soundNodes (animate T d refs) ! i = beforeDetect T x (soundNodes refs ! i))
       \<and> (\<bar>sub64 (v_x (position (soundNodes refs ! i))) (nextWand x)\<bar> < 1.0)
           = (\<bar>v_x (position (soundNodes refs ! i)) - nextWand x\<bar> < 1 - 1 / 2 ^ 54)"
proof -
  let ?n = "soundNodes refs ! i"
  note fl = fires_flag [OF assms, of T]
  have step: "soundNodes (animate T d refs) ! i = stepNode T x ?n"
    using animate_playing(2) [OF assms(1-3), of T] assms(4) by simp
  have hit: "fires T d refs i = hits (nextWand x) (beforeDetect T x ?n)"
    by (rule fires_node [OF assms])
  have a: "wandGroup (animate T d refs) = Some (nextWand x)"
    by (rule animate_playing(1) [OF assms(1-3)])
  have b: "wraps x \<or> \<not> hasBeenTriggered ?n \<longrightarrow>
            fires T d refs i = (\<bar>sub64 (v_x (position ?n)) (nextWand x)\<bar> < 1.0)"
    using fl by (auto simp: near_def)
  have c: "\<not> wraps x \<and> hasBeenTriggered ?n \<longrightarrow>
            \<not> fires T d refs i \<and> soundNodes (animate T d refs) ! i = decayNode T ?n"
    using fl step by (auto simp: stepNode_def stepHit_def hits_def beforeDetect_def)
  have d: "fires T d refs i \<longrightarrow>
            hasBeenTriggered (soundNodes (animate T d refs) ! i)
          \<and> emissive (soundNodes (animate T d refs) ! i) = setHex T 0xffffff
          \<and> (utype ?n = ''kick'' \<longrightarrow>
               scale (soundNodes (animate T d refs) ! i) = \<lparr>v_x = 1.2, v_y = 1.2, v_z = 1.2\<rparr>)
          \<and> (utype ?n \<noteq> ''kick'' \<longrightarrow>
               scale (soundNodes (animate T d refs) ! i) = scale ?n)"
    using hit step by (simp add: stepNode_def stepHit_def decayNode_def Let_def)
  have e: "\<not> fires T d refs i \<longrightarrow> soundNodes (animate T d refs) ! i = beforeDetect T x ?n"
    using hit step by (simp add: stepNode_def stepHit_def)
  have f: "(\<bar>sub64 (v_x (position ?n)) (nextWand x)\<bar> < 1.0)
           = (\<bar>v_x (position ?n) - nextWand x\<bar> < 1 - 1 / 2 ^ 54)"
    using sub64_lt_one [of "v_x (position ?n)" "nextWand x"] by simp
  from a b c d e f show ?thesis
    by blast
qed

theorem trigger_detection_witness:
  "\<not> hasBeenTriggered (soundNodes kickAhead ! 0)
   \<and> fires three160 (page ''kick'' True) kickAhead 0
   \<and> hasBeenTriggered (soundNodes (animate three160 (page ''kick'' True) kickAhead) ! 0)
   \<and> emissive (soundNodes (animate three160 (page ''kick'' True) kickAhead) ! 0) = setHex three160 0xffffff
   \<and> scale (soundNodes (animate three160 (page ''kick'' True) kickAhead) ! 0)
       = \<lparr>v_x = 1.2, v_y = 1.2, v_z = 1.2\<rparr>
   \<and> hasBeenTriggered (soundNodes kickStruck ! 0)
   \<and> \<not> fires three160 (page ''kick'' True) kickStruck 0
   \<and> soundNodes (animate three160 (page ''kick'' True) kickStruck) ! 0
       = decayNode three160 (soundNodes kickStruck ! 0)
   \<and> wandGroup grazedKick = Some (-1.5)
   \<and> \<not> hasBeenTriggered (soundNodes grazedKick ! 0)
   \<and> \<bar>v_x (position (soundNodes grazedKick ! 0)) - (-1)\<bar> < 1
   \<and> wandGroup (animate three160 (page ''kick'' True) grazedKick) = Some (-1)
   \<and> \<not> fires three160 (page ''kick'' True) grazedKick 0
   \<and> \<not> hasBeenTriggered (soundNodes (animate three160 (page ''kick'' True) grazedKick) ! 0)"
proof -
  let ?d = "page ''kick'' True"
  note a = trigger_detection [of kickAhead ?d 49 0 three160]
  note b = trigger_detection [of kickStruck ?d "49.5" 0 three160]
  have hg: "rendering grazedKick" "isGamePlaying ?d" "wandGroup grazedKick = Some (-1.5)"
    "0 < length (soundNodes grazedKick)"
    by (simp_all add: grazedKick_state)
  note c = trigger_detection [OF hg, of three160]
  have nx: "nextWand (-1.5) = -1" "\<not> wraps (-1.5)"
    by (simp_all add: nextWand_def wraps_def planeSize_def)
  have c1: "wandGroup (animate three160 ?d grazedKick) = Some (-1)"
    using c nx by simp
  have "fires three160 ?d grazedKick 0
      = (\<bar>v_x (position (soundNodes grazedKick ! 0)) - nextWand (-1.5)\<bar> < 1 - 1 / 2 ^ 54)"
    using c grazedKick_state(5) by blast
  then have c2: "\<not> fires three160 ?d grazedKick 0"
    unfolding nx grazedKick_state(4) by simp
  then have "soundNodes (animate three160 ?d grazedKick) ! 0
      = beforeDetect three160 (-1.5) (soundNodes grazedKick ! 0)"
    using c by blast
  then have c3: "\<not> hasBeenTriggered (soundNodes (animate three160 ?d grazedKick) ! 0)"
    using grazedKick_state(5) by simp
  have c0: "\<bar>v_x (position (soundNodes grazedKick ! 0)) - (-1)\<bar> < 1"
    unfolding grazedKick_state(4) by simp
  have ab: "\<not> hasBeenTriggered (soundNodes kickAhead ! 0)
   \<and> fires three160 ?d kickAhead 0
   \<and> hasBeenTriggered (soundNodes (animate three160 ?d kickAhead) ! 0)
   \<and> emissive (soundNodes (animate three160 ?d kickAhead) ! 0) = setHex three160 0xffffff
   \<and> scale (soundNodes (animate three160 ?d kickAhead) ! 0)
       = \<lparr>v_x = 1.2, v_y = 1.2, v_z = 1.2\<rparr>
   \<and> hasBeenTriggered (soundNodes kickStruck ! 0)
   \<and> \<not> fires three160 ?d kickStruck 0
   \<and> soundNodes (animate three160 ?d kickStruck) ! 0
       = decayNode three160 (soundNodes kickStruck ! 0)"
    using a b
    by (simp add: nextWand_def wraps_def planeSize_def kickStruck_flag sub64_lt_one)
  show ?thesis
    using ab c0 c1 c2 c3 grazedKick_state(2,5) by blast
qed

subsection \<open>The order of the blocks\<close>

lemma specOrder_playing:
  assumes "rendering r" "isGamePlaying d" "wandGroup r = Some x"
  shows "soundNodes (specOrderTick T d r) =
           map (\<lambda>n. decayNode T (stepHit T (nextWand x)
                  (if wraps x then n\<lparr>hasBeenTriggered := False\<rparr> else n))) (soundNodes r)"
  using assms
  by (simp add: specOrderTick_def decayPass_def triggerPass_def advanceWand_def Let_def
      triggerLoop_nodes nextWand_def wraps_def)

text \<open>
  Claim C3, as the code has it. A frame with Play held runs the decay loop first, then
  advances the wand, wraps and clears the flags, then runs the detection loop, which
  sets the impulse and starts the sound node by node. So each node goes through the
  decay, then the reset, then the test; and a node triggered in the frame ends the frame
  with the full impulse (emissive \<open>0xffffff\<close>, a kick's scale \<open>1.2\<close>), not yet decayed.
\<close>

theorem frame_order:
  assumes "rendering refs" and "isGamePlaying d" and "wandGroup refs = Some x"
  shows "animate T d refs = triggerPass T (advanceWand x (decayPass T refs))
       \<and> (\<forall>i < length (soundNodes refs).
            soundNodes (animate T d refs) ! i
              = stepHit T (nextWand x) (beforeDetect T x (soundNodes refs ! i)))
       \<and> (\<forall>i < length (soundNodes refs). fires T d refs i \<longrightarrow>
            emissive (soundNodes (animate T d refs) ! i) = setHex T 0xffffff
          \<and> scale (soundNodes (animate T d refs) ! i)
              = (if utype (soundNodes refs ! i) = ''kick''
                 then \<lparr>v_x = 1.2, v_y = 1.2, v_z = 1.2\<rparr>
                 else scale (decayNode T (soundNodes refs ! i))))"
proof (intro conjI allI impI)
  show "animate T d refs = triggerPass T (advanceWand x (decayPass T refs))"
    by (rule animate_order [OF assms])
next
  fix i
  assume i: "i < length (soundNodes refs)"
  then show "soundNodes (animate T d refs) ! i
              = stepHit T (nextWand x) (beforeDetect T x (soundNodes refs ! i))"
    using animate_playing(2) [OF assms, of T] by (simp add: stepNode_def)
  assume f: "fires T d refs i"
  note eff = fires_effect [OF assms i f]
  show "emissive (soundNodes (animate T d refs) ! i) = setHex T 0xffffff"
    unfolding eff by simp
  show "scale (soundNodes (animate T d refs) ! i)
              = (if utype (soundNodes refs ! i) = ''kick''
                 then \<lparr>v_x = 1.2, v_y = 1.2, v_z = 1.2\<rparr>
                 else scale (decayNode T (soundNodes refs ! i)))"
    unfolding eff by simp
qed

theorem frame_order_witness:
  "animate three160 (page ''kick'' True) kickAhead
     = triggerPass three160 (advanceWand 49 (decayPass three160 kickAhead))
   \<and> fires three160 (page ''kick'' True) kickAhead 0
   \<and> scale (soundNodes (animate three160 (page ''kick'' True) kickAhead) ! 0)
       = \<lparr>v_x = 1.2, v_y = 1.2, v_z = 1.2\<rparr>"
proof -
  have h: "rendering kickAhead" "isGamePlaying (page ''kick'' True)" "wandGroup kickAhead = Some 49"
    by simp_all
  note t = frame_order [OF h, of three160]
  have f: "fires three160 (page ''kick'' True) kickAhead 0"
    by (rule kickAhead_fires)
  have "0 < length (soundNodes kickAhead)"
    by simp
  with t f have "scale (soundNodes (animate three160 (page ''kick'' True) kickAhead) ! 0)
       = (if utype (soundNodes kickAhead ! 0) = ''kick''
          then \<lparr>v_x = 1.2, v_y = 1.2, v_z = 1.2\<rparr>
          else scale (decayNode three160 (soundNodes kickAhead ! 0)))"
    by blast
  then have "scale (soundNodes (animate three160 (page ''kick'' True) kickAhead) ! 0)
       = \<lparr>v_x = 1.2, v_y = 1.2, v_z = 1.2\<rparr>"
    by simp
  with t f show ?thesis
    by blast
qed

text \<open>
  Claim C3 as stated puts the decay last. For the lone kick struck in this frame the
  code leaves the scale at \<open>1.2\<close>; the stated order would leave it at \<open>1.18\<close>.
\<close>

theorem decay_is_not_last:
  "scale (soundNodes (animate three160 (page ''kick'' True) kickAhead) ! 0)
     = \<lparr>v_x = 1.2, v_y = 1.2, v_z = 1.2\<rparr>
   \<and> scale (soundNodes (specOrderTick three160 (page ''kick'' True) kickAhead) ! 0)
     = \<lparr>v_x = 1.18, v_y = 1.18, v_z = 1.18\<rparr>
   \<and> animate three160 (page ''kick'' True) kickAhead
     \<noteq> specOrderTick three160 (page ''kick'' True) kickAhead"
proof -
  let ?d = "page ''kick'' True"
  have a: "scale (soundNodes (animate three160 ?d kickAhead) ! 0) = \<lparr>v_x = 1.2, v_y = 1.2, v_z = 1.2\<rparr>"
    using fires_effect [of kickAhead ?d 49 0 three160] kickAhead_fires [of three160 "''kick''"]
    by simp
  have h: "hits (nextWand 49) (soundNodes kickAhead ! 0)"
    by (simp add: hits_near near_iff nextWand_def wraps_def planeSize_def)
  have "soundNodes (specOrderTick three160 ?d kickAhead) ! 0
          = decayNode three160 (triggerNode three160 (soundNodes kickAhead ! 0))"
    using specOrder_playing [of kickAhead ?d 49 three160] h
    by (simp add: stepHit_def wraps_def planeSize_def)
  then have b: "scale (soundNodes (specOrderTick three160 ?d kickAhead) ! 0)
          = \<lparr>v_x = 1.18, v_y = 1.18, v_z = 1.18\<rparr>"
    by (simp add: decayNode_def Let_def Vector3_lerp_def)
  from a b have "animate three160 ?d kickAhead \<noteq> specOrderTick three160 ?d kickAhead"
    by auto
  with a b show ?thesis
    by blast
qed

subsection \<open>The decay of the flash and of the kick's scale\<close>

lemma decayNode_flag_update:
  "decayNode T (n\<lparr>hasBeenTriggered := b\<rparr>) = (decayNode T n)\<lparr>hasBeenTriggered := b\<rparr>"
  by (simp add: decayNode_def Let_def)

lemma decay_iter_flag_update:
  "((decayNode T) ^^ k) (n\<lparr>hasBeenTriggered := b\<rparr>) = (((decayNode T) ^^ k) n)\<lparr>hasBeenTriggered := b\<rparr>"
  by (induction k) (simp_all add: decayNode_flag_update)

lemma decay_iter_fields [simp]:
  "utype (((decayNode T) ^^ k) n) = utype n"
  "originalEmissive (((decayNode T) ^^ k) n) = originalEmissive n"
  "position (((decayNode T) ^^ k) n) = position n"
  by (induction k; simp)+

lemma quiet_frame:
  assumes "rendering r" "i < length (soundNodes r)" "\<not> fires T d r i"
  shows "\<exists>b. soundNodes (animate T d r) ! i = (decayNode T (soundNodes r ! i))\<lparr>hasBeenTriggered := b\<rparr>"
proof (cases "isGamePlaying d")
  case False
  then have "soundNodes (animate T d r) ! i = decayNode T (soundNodes r ! i)"
    using assms(1,2) by (simp add: animate_stopped decayPass_def)
  then have "soundNodes (animate T d r) ! i =
      (decayNode T (soundNodes r ! i))\<lparr>hasBeenTriggered := hasBeenTriggered (soundNodes r ! i)\<rparr>"
    by simp
  then show ?thesis ..
next
  case True
  show ?thesis
  proof (cases "wandGroup r")
    case None
    then have "soundNodes (animate T d r) ! i = decayNode T (soundNodes r ! i)"
      using assms(1,2) True by (simp add: animate_def decayPass_def Let_def)
    then have "soundNodes (animate T d r) ! i =
        (decayNode T (soundNodes r ! i))\<lparr>hasBeenTriggered := hasBeenTriggered (soundNodes r ! i)\<rparr>"
      by simp
    then show ?thesis ..
  next
    case (Some x)
    have "\<not> hits (nextWand x) (beforeDetect T x (soundNodes r ! i))"
      using fires_node [OF assms(1) True Some assms(2), of T] assms(3) by simp
    then have "soundNodes (animate T d r) ! i = beforeDetect T x (soundNodes r ! i)"
      using animate_playing(2) [OF assms(1) True Some, of T] assms(2)
      by (simp add: stepNode_def stepHit_def)
    then have "soundNodes (animate T d r) ! i =
        (decayNode T (soundNodes r ! i))\<lparr>hasBeenTriggered := \<not> wraps x \<and> hasBeenTriggered (soundNodes r ! i)\<rparr>"
      by (simp add: beforeDetect_def)
    then show ?thesis ..
  qed
qed

lemma quiet_frames:
  assumes "rendering r" "i < length (soundNodes r)"
  shows "(\<forall>j < length ds. \<not> fires T (ds ! j) (ticks T (take j ds) r) i) \<Longrightarrow>
         \<exists>b. soundNodes (ticks T ds r) ! i
               = (((decayNode T) ^^ length ds) (soundNodes r ! i))\<lparr>hasBeenTriggered := b\<rparr>"
proof (induction ds rule: rev_induct)
  case Nil
  show ?case
    by (simp, rule exI [of _ "hasBeenTriggered (soundNodes r ! i)"], simp)
next
  case (snoc d ds)
  have "\<forall>j < length ds. \<not> fires T (ds ! j) (ticks T (take j ds) r) i"
  proof (intro allI impI)
    fix j assume j: "j < length ds"
    then have "j < length (ds @ [d])"
      by simp
    with snoc.prems have "\<not> fires T ((ds @ [d]) ! j) (ticks T (take j (ds @ [d])) r) i"
      by blast
    then show "\<not> fires T (ds ! j) (ticks T (take j ds) r) i"
      using j by (simp add: nth_append)
  qed
  from snoc.IH [OF this] obtain b where
    b: "soundNodes (ticks T ds r) ! i = (((decayNode T) ^^ length ds) (soundNodes r ! i))\<lparr>hasBeenTriggered := b\<rparr>"
    by blast
  have "length ds < length (ds @ [d])"
    by simp
  with snoc.prems have "\<not> fires T ((ds @ [d]) ! length ds) (ticks T (take (length ds) (ds @ [d])) r) i"
    by blast
  then have quiet: "\<not> fires T d (ticks T ds r) i"
    by simp
  from quiet_frame [OF _ _ quiet] assms obtain b' where
    "soundNodes (animate T d (ticks T ds r)) ! i
       = (decayNode T (soundNodes (ticks T ds r) ! i))\<lparr>hasBeenTriggered := b'\<rparr>"
    by auto
  then have "soundNodes (ticks T (ds @ [d]) r) ! i
       = (((decayNode T) ^^ length (ds @ [d])) (soundNodes r ! i))\<lparr>hasBeenTriggered := b'\<rparr>"
    unfolding ticks_snoc b by (simp add: decayNode_flag_update)
  then show ?case ..
qed

lemma times3_twice: "times3 a (times3 b v) = times3 (a * b) v"
  by (simp add: times3_def)

lemma times3_one: "times3 1 v = v"
  by (simp add: times3_def)

lemma glow_flag [simp]: "glow T (n\<lparr>hasBeenTriggered := b\<rparr>) = glow T n"
  by (simp add: glow_def)

lemma swell_flag [simp]: "swell (n\<lparr>hasBeenTriggered := b\<rparr>) = swell n"
  by (simp add: swell_def)

lemma decayNode_glow:
  "getHex T (emissive n) \<noteq> originalEmissive n \<Longrightarrow> glow T (decayNode T n) = times3 0.9 (glow T n)"
  by (simp add: decayNode_def Let_def glow_def times3_def Color_lerp_def algebra_simps)

lemma decayNode_frozen:
  "getHex T (emissive n) = originalEmissive n \<Longrightarrow> emissive (decayNode T n) = emissive n"
  by (simp add: decayNode_def Let_def)

lemma decayNode_swell:
  "utype n = ''kick'' \<Longrightarrow> 1 < v_x (scale n) \<Longrightarrow>
   swell (decayNode T n) = times3 0.9 (swell n) \<and> 1 < v_x (scale (decayNode T n))"
  by (simp add: decayNode_def Let_def swell_def times3_def Vector3_lerp_def algebra_simps)

lemma decayNode_still:
  "utype n \<noteq> ''kick'' \<or> v_x (scale n) \<le> 1 \<Longrightarrow> scale (decayNode T n) = scale n"
  by (auto simp: decayNode_def Let_def)

lemma decay_iter_glow:
  "(\<forall>j<k. getHex T (emissive (((decayNode T) ^^ j) n)) \<noteq> originalEmissive n) \<Longrightarrow>
   glow T (((decayNode T) ^^ k) n) = times3 (0.9 ^ k) (glow T n)"
proof (induction k)
  case 0
  then show ?case by (simp add: times3_one)
next
  case (Suc k)
  then have "glow T (((decayNode T) ^^ k) n) = times3 (0.9 ^ k) (glow T n)"
    by simp
  moreover have "getHex T (emissive (((decayNode T) ^^ k) n)) \<noteq> originalEmissive (((decayNode T) ^^ k) n)"
    using Suc.prems by simp
  ultimately show ?case
    by (simp add: decayNode_glow times3_twice)
qed

lemma decay_iter_frozen:
  "getHex T (emissive n) = originalEmissive n \<Longrightarrow> emissive (((decayNode T) ^^ k) n) = emissive n"
proof (induction k)
  case 0
  then show ?case by simp
next
  case (Suc k)
  then have e: "emissive (((decayNode T) ^^ k) n) = emissive n"
    by simp
  have "getHex T (emissive (((decayNode T) ^^ k) n)) = originalEmissive (((decayNode T) ^^ k) n)"
    unfolding e using Suc.prems by simp
  from decayNode_frozen [OF this] e show ?case
    by simp
qed

lemma decay_iter_swell:
  "utype n = ''kick'' \<Longrightarrow> 1 < v_x (scale n) \<Longrightarrow>
   swell (((decayNode T) ^^ k) n) = times3 (0.9 ^ k) (swell n) \<and> 1 < v_x (scale (((decayNode T) ^^ k) n))"
proof (induction k)
  case 0
  then show ?case by (simp add: times3_one)
next
  case (Suc k)
  then have ih: "swell (((decayNode T) ^^ k) n) = times3 (0.9 ^ k) (swell n)"
      "1 < v_x (scale (((decayNode T) ^^ k) n))"
    by simp_all
  have "utype (((decayNode T) ^^ k) n) = ''kick''"
    using Suc.prems by simp
  from decayNode_swell [OF this ih(2), of T] ih(1) show ?case
    by (simp add: times3_twice)
qed

lemma decay_iter_still:
  "utype n \<noteq> ''kick'' \<or> v_x (scale n) \<le> 1 \<Longrightarrow> scale (((decayNode T) ^^ k) n) = scale n"
proof (induction k)
  case 0
  then show ?case by simp
next
  case (Suc k)
  then have e: "scale (((decayNode T) ^^ k) n) = scale n"
    by simp
  have "utype (((decayNode T) ^^ k) n) \<noteq> ''kick'' \<or> v_x (scale (((decayNode T) ^^ k) n)) \<le> 1"
    unfolding e using Suc.prems by simp
  from decayNode_still [OF this, of T] e show ?case
    by simp
qed

subsection \<open>States the page can reach\<close>

lemma scaleAtRest_flag [simp]: "scaleAtRest (n\<lparr>hasBeenTriggered := b\<rparr>) = scaleAtRest n"
  by (simp add: scaleAtRest_def)

lemma scaleAtRest_decay:
  assumes "scaleAtRest n"
  shows "scaleAtRest (decayNode T n)"
proof (cases "utype n = ''kick'' \<and> 1 < v_x (scale n)")
  case True
  then have "1 < v_x (scale (decayNode T n))"
    using decayNode_swell [where n = n and T = T] by simp
  with True show ?thesis
    by (simp add: scaleAtRest_def)
next
  case False
  then have "utype n \<noteq> ''kick'' \<or> v_x (scale n) \<le> 1"
    by auto
  from decayNode_still [OF this, where T = T] assms False show ?thesis
    by (simp add: scaleAtRest_def)
qed

lemma scaleAtRest_trigger: "scaleAtRest n \<Longrightarrow> scaleAtRest (triggerNode T n)"
  by (auto simp: scaleAtRest_def triggerNode_def Let_def)

lemma scaleAtRest_step: "scaleAtRest n \<Longrightarrow> scaleAtRest (stepNode T x n)"
  by (simp add: stepNode_def stepHit_def beforeDetect_def scaleAtRest_decay scaleAtRest_trigger)

lemma animate_scaleAtRest:
  assumes "\<forall>n \<in> set (soundNodes r). scaleAtRest n"
  shows "\<forall>n \<in> set (soundNodes (animate T d r)). scaleAtRest n"
proof (cases "rendering r \<and> isGamePlaying d \<and> wandGroup r \<noteq> None")
  case True
  then obtain x where x: "wandGroup r = Some x" by auto
  from True x have "soundNodes (animate T d r) = map (stepNode T x) (soundNodes r)"
    by (intro animate_playing(2)) simp_all
  then show ?thesis
    using assms by (simp add: scaleAtRest_step)
next
  case False
  then have "animate T d r = r \<or> soundNodes (animate T d r) = map (decayNode T) (soundNodes r)"
    by (auto simp: animate_def Let_def decayPass_def)
  then show ?thesis
    using assms by (auto simp: scaleAtRest_decay)
qed

lemma reachable_inv:
  "reachable T r \<Longrightarrow> rendering r \<and> (\<forall>n \<in> set (soundNodes r). scaleAtRest n)"
proof (induction rule: reachable.induct)
  case start
  then show ?case by (simp add: startGame_def)
next
  case (loaded refs name buffer)
  then show ?case by simp
next
  case (click refs d point refs')
  then show ?case
    by (auto simp: placeInstrument_def placeNode_def switchType_def Mesh_def scaleAtRest_def
        split: if_splits)
next
  case (frame refs d)
  then show ?case
    using animate_scaleAtRest [of refs T d] by simp
qed

lemma reachable_placed: "reachable T r \<Longrightarrow> reachable T (placed T ty x r)"
  by (auto simp: placed_def split: sum.splits intro: reachable.click)

lemma reachable_ticks: "reachable T r \<Longrightarrow> reachable T (ticks T ds r)"
  by (induction ds arbitrary: r) (simp_all add: reachable.frame)

lemma reachable_kicks: "reachable three160 kickAhead" "reachable three160 kickStruck"
proof -
  show a: "reachable three160 kickAhead"
    unfolding kickAhead_reached [symmetric]
    by (intro reachable_ticks reachable_placed reachable.start)
  show "reachable three160 kickStruck"
    unfolding kickStruck_def by (rule reachable.frame [OF a])
qed

lemma scaleAtRest_swell:
  assumes "scaleAtRest n"
  shows "swell (((decayNode T) ^^ k) n) = times3 (0.9 ^ k) (swell n)"
proof (cases "utype n = ''kick'' \<and> 1 < v_x (scale n)")
  case True
  then show ?thesis
    using decay_iter_swell [where n = n and T = T and k = k] by simp
next
  case False
  with assms have one: "scale n = \<lparr>v_x = 1, v_y = 1, v_z = 1\<rparr>"
    by (simp add: scaleAtRest_def)
  from False have "utype n \<noteq> ''kick'' \<or> v_x (scale n) \<le> 1"
    by auto
  from decay_iter_still [OF this, where T = T and k = k] one show ?thesis
    by (simp add: swell_def times3_def)
qed

subsection \<open>The conversion of three.js on the kick's colours\<close>

lemma transfer_ends:
  "SRGBToLinear 0 = 0" "SRGBToLinear 1 = 1" "LinearToSRGB 0 = 0" "LinearToSRGB 1 = 1"
  by (simp_all add: SRGBToLinear_def LinearToSRGB_def)

lemma LinearToSRGB_mono:
  assumes "0.0031308 \<le> a" "a \<le> b"
  shows "LinearToSRGB a \<le> LinearToSRGB b"
proof -
  have "a powr 0.41666 \<le> b powr 0.41666"
    by (rule powr_mono2) (use assms in simp_all)
  then show ?thesis
    using assms by (simp add: LinearToSRGB_def)
qed

lemma LinearToSRGB_bright:
  assumes "0.0031308 \<le> c" "c \<le> 1"
  shows "1 / 2 \<le> LinearToSRGB c * 255"
proof -
  have c0: "0 \<le> c" using assms(1) by simp
  have "c powr 1 \<le> c powr (1 / 2)"
    by (rule powr_mono') (use assms c0 in simp_all)
  have half: "c powr (1 / 2) \<le> c powr 0.41666"
    by (rule powr_mono') (use assms c0 in simp_all)
  have "(0.0559 :: real) ^ 2 \<le> c"
    using assms(1) by (simp add: power2_eq_square)
  then have "sqrt ((0.0559 :: real) ^ 2) \<le> sqrt c"
    by (rule real_sqrt_le_mono)
  then have "0.0559 \<le> sqrt c"
    by simp
  then have "0.0559 \<le> c powr 0.41666"
    using half powr_half_sqrt [OF c0] by linarith
  then show ?thesis
    using assms by (simp add: LinearToSRGB_def)
qed

lemma powr_near_one:
  fixes w :: real
  assumes "1 / 2 \<le> w" "w \<le> 1" "0 \<le> t" "t \<le> 1"
  shows "w powr (1 - t) \<le> w * (1 + t + t\<^sup>2)"
proof -
  have w: "0 < w" using assms(1) by simp
  have "ln (1 / w) \<le> 1 / w - 1"
    by (rule ln_le_minus_one) (use w in simp)
  also have "\<dots> \<le> 1"
    using assms(1) w by (simp add: field_simps)
  finally have "t * ln (1 / w) \<le> t"
    using assms(3) by (simp add: mult_left_le)
  then have "exp (t * ln (1 / w)) \<le> exp t"
    by simp
  also have "\<dots> \<le> 1 + t + t\<^sup>2"
    by (rule exp_bound) (use assms in simp_all)
  finally have e: "exp (t * ln (1 / w)) \<le> 1 + t + t\<^sup>2" .
  have "w powr (1 + (- t)) = w powr 1 * w powr (- t)"
    by (rule powr_add)
  moreover have "w powr (- t) = exp (t * ln (1 / w))"
    using w by (simp add: powr_def ln_div)
  moreover have "w powr 1 = w"
    using w by simp
  ultimately have "w powr (1 - t) = w * exp (t * ln (1 / w))"
    by simp
  then show ?thesis
    using e w by simp
qed

lemma kickRed_byte:
  assumes "0 \<le> d" "d \<le> 0.9 ^ 84"
  shows "channelByte (kickRed + d * (1 - kickRed)) = 139"
    and "0.0031308 \<le> kickRed" and "kickRed \<le> 1"
proof -
  define z :: real where "z = 139 / 255 * 0.9478672986 + 0.0521327014"
  define w :: real where "w = 0.5692"
  have z: "0.5688 \<le> z" "z \<le> 0.5689"
    by (simp_all add: z_def)
  have R: "kickRed = z powr 2.4"
    by (simp add: kickRed_def SRGBToLinear_def z_def)
  have split: "x powr 2.4 = x\<^sup>2 * x powr 0.4" if "0 < x" for x :: real
  proof -
    have "x powr 2.4 = x powr (2 + 0.4)"
      by simp
    also have "\<dots> = x powr 2 * x powr 0.4"
      by (rule powr_add)
    finally show ?thesis
      using that by simp
  qed
  have z04: "z \<le> z powr 0.4"
  proof -
    have "z powr 1 \<le> z powr 0.4"
      by (rule powr_mono') (use z in simp_all)
    then show ?thesis using z by simp
  qed
  have zw04: "z powr 0.4 \<le> w powr 0.4"
    by (rule powr_mono2) (use z in \<open>simp_all add: w_def\<close>)
  have z04_le: "z powr 0.4 \<le> 1"
    by (rule powr_le1) (use z in simp_all)
  have zpos: "0 < z"
    using z(1) by simp
  have "z\<^sup>2 * z \<le> z\<^sup>2 * z powr 0.4"
    by (rule mult_left_mono) (use z04 in simp_all)
  then have Rlow: "z\<^sup>2 * z \<le> kickRed"
    unfolding R split [OF zpos] .
  have "(0.5688 :: real)\<^sup>2 * 0.5688 \<le> z\<^sup>2 * z"
    using z(1) by (intro mult_mono power_mono) simp_all
  then show lo: "0.0031308 \<le> kickRed"
    using Rlow by (simp add: power2_eq_square)
  show hi: "kickRed \<le> 1"
    unfolding R by (rule powr_le1) (use z in simp_all)
  let ?x = "kickRed + d * (1 - kickRed)"
  have x_lo: "kickRed \<le> ?x"
    using assms(1) hi by simp
  have "d * (1 - kickRed) \<le> 0.9 ^ 84 * 1"
    by (rule mult_mono) (use assms lo hi in simp_all)
  then have x_hi0: "?x \<le> kickRed + 0.9 ^ 84"
    by simp
  have wz: "0 \<le> w\<^sup>2 - z\<^sup>2"
  proof -
    have "z\<^sup>2 \<le> w\<^sup>2"
      by (rule power_mono) (use z in \<open>simp_all add: w_def\<close>)
    then show ?thesis by simp
  qed
  have num: "(0.9 :: real) ^ 84 \<le> (w\<^sup>2 - z\<^sup>2) * z"
  proof -
    have "z\<^sup>2 \<le> 0.5689\<^sup>2"
      by (rule power_mono) (use z in simp_all)
    then have a1: "(0.5692 :: real)\<^sup>2 - 0.5689\<^sup>2 \<le> w\<^sup>2 - z\<^sup>2"
      by (simp add: w_def)
    have "(0.9 :: real) ^ 84 \<le> (0.5692\<^sup>2 - 0.5689\<^sup>2) * 0.5688"
      by (simp add: power_divide power2_eq_square)
    also have "\<dots> \<le> (w\<^sup>2 - z\<^sup>2) * z"
      by (rule mult_mono [OF a1 z(1) wz]) simp
    finally show ?thesis .
  qed
  have "kickRed + 0.9 ^ 84 \<le> z\<^sup>2 * z powr 0.4 + (w\<^sup>2 - z\<^sup>2) * z"
    unfolding R split [OF zpos] using num by simp
  also have "\<dots> \<le> z\<^sup>2 * z powr 0.4 + (w\<^sup>2 - z\<^sup>2) * z powr 0.4"
    using z04 wz by (simp add: mult_left_mono)
  also have "\<dots> = w\<^sup>2 * z powr 0.4"
    by (simp add: algebra_simps)
  also have "\<dots> \<le> w\<^sup>2 * w powr 0.4"
    using zw04 by (simp add: mult_left_mono)
  also have "\<dots> = w powr 2.4"
    by (rule split [symmetric]) (simp add: w_def)
  finally have x_hi: "?x \<le> w powr 2.4"
    using x_hi0 by linarith
  define lo_v :: real where "lo_v = 1.055 * z - 0.055"
  define up_v :: real where "up_v = 1.055 * (w * (1 + 0.000016 + 0.000016\<^sup>2)) - 0.055"
  have low: "lo_v \<le> LinearToSRGB kickRed"
  proof -
    have "(z powr 2.4) powr 0.41666 = z powr (2.4 * 0.41666)"
      by (rule powr_powr)
    moreover have "z powr 1 \<le> z powr (2.4 * 0.41666)"
      by (rule powr_mono') (use z in simp_all)
    ultimately have "z \<le> kickRed powr 0.41666"
      unfolding R using z by simp
    then show ?thesis
      using lo by (simp add: LinearToSRGB_def lo_v_def)
  qed
  have up: "LinearToSRGB (w powr 2.4) \<le> up_v"
  proof -
    have "(w powr 2.4) powr 0.41666 = w powr (2.4 * 0.41666)"
      by (rule powr_powr)
    also have "\<dots> = w powr (1 - 0.000016)"
      by simp
    also have "\<dots> \<le> w * (1 + 0.000016 + 0.000016\<^sup>2)"
      by (rule powr_near_one) (simp_all add: w_def)
    finally have "(w powr 2.4) powr 0.41666 \<le> w * (1 + 0.000016 + 0.000016\<^sup>2)" .
    moreover have "0.0031308 \<le> w powr 2.4"
      using x_hi x_lo lo by linarith
    ultimately show ?thesis
      by (simp add: LinearToSRGB_def up_v_def)
  qed
  have "LinearToSRGB kickRed \<le> LinearToSRGB ?x"
    by (rule LinearToSRGB_mono) (use lo x_lo in simp_all)
  moreover have "LinearToSRGB ?x \<le> LinearToSRGB (w powr 2.4)"
    by (rule LinearToSRGB_mono) (use lo x_lo x_hi in simp_all)
  moreover have "138.5 \<le> lo_v * 255"
    by (simp add: lo_v_def z_def)
  moreover have "up_v * 255 < 139.5"
    by (simp add: up_v_def w_def power2_eq_square)
  ultimately have v: "138.5 \<le> LinearToSRGB ?x * 255" "LinearToSRGB ?x * 255 < 139.5"
    using low up by linarith+
  then have "max 0 (min 255 (LinearToSRGB ?x * 255)) = LinearToSRGB ?x * 255"
    by simp
  moreover have "\<lfloor>LinearToSRGB ?x * 255 + 1 / 2\<rfloor> = 139"
    by (rule floor_unique) (use v in simp_all)
  ultimately show "channelByte ?x = 139"
    by (simp add: channelByte_def)
qed

lemma channelByte_le: "channelByte c \<le> 255"
proof -
  have "max 0 (min 255 (LinearToSRGB c * 255)) + 1 / 2 < 256"
    by simp
  then have "\<lfloor>max 0 (min 255 (LinearToSRGB c * 255)) + 1 / 2\<rfloor> < 256"
    by (simp add: floor_less_iff)
  then show ?thesis
    unfolding channelByte_def by linarith
qed

lemma channelByte_pos:
  assumes "1 / 2 \<le> LinearToSRGB c * 255"
  shows "1 \<le> channelByte c"
proof -
  have "1 \<le> max 0 (min 255 (LinearToSRGB c * 255)) + 1 / 2"
    using assms by simp
  then have "1 \<le> \<lfloor>max 0 (min 255 (LinearToSRGB c * 255)) + 1 / 2\<rfloor>"
    by (simp add: le_floor_iff)
  then show ?thesis
    unfolding channelByte_def by linarith
qed

lemma channelByte_dark:
  assumes "0 \<le> c" "c * 3294.6 < 1 / 2"
  shows "channelByte c = 0"
proof -
  have "c < 0.0031308"
    using assms by simp
  then have l: "LinearToSRGB c * 255 = c * 3294.6"
    by (simp add: LinearToSRGB_def)
  have "0 \<le> LinearToSRGB c * 255" "LinearToSRGB c * 255 < 1 / 2"
    unfolding l using assms by simp_all
  then have "\<lfloor>max 0 (min 255 (LinearToSRGB c * 255)) + 1 / 2\<rfloor> = 0"
    by (intro floor_unique) (simp_all add: max_def min_def)
  then show ?thesis
    unfolding channelByte_def by simp
qed

lemma lerp_step:
  fixes a p :: real
  shows "(a + p * (1 - a)) + (a - (a + p * (1 - a))) * 0.1 = a + (0.9 * p) * (1 - a)"
    and "p + (0 - p) * 0.1 = 0.9 * p"
  by (simp_all add: field_simps)

lemma fade_bounds:
  "(1 / 2 :: real) \<le> 0.9 ^ 83 * 3294.6"
  "(0.9 :: real) ^ 84 * 3294.6 < 1 / 2"
  "(0.9 :: real) ^ 84 \<noteq> 0.9 ^ 85"
  by (simp_all add: power_divide)

lemma fade_green:
  assumes "k \<le> 83"
  shows "1 \<le> channelByte (0.9 ^ k)"
proof (rule channelByte_pos, cases "(0.9 :: real) ^ k < 0.0031308")
  case True
  have "(0.9 :: real) ^ 83 \<le> 0.9 ^ k"
    by (intro power_decreasing) (use assms in simp_all)
  then have "(0.9 :: real) ^ 83 * 3294.6 \<le> 0.9 ^ k * 3294.6"
    by (rule mult_right_mono) simp
  then have "1 / 2 \<le> (0.9 :: real) ^ k * 3294.6"
    using fade_bounds(1) by linarith
  moreover have "LinearToSRGB (0.9 ^ k) * 255 = 0.9 ^ k * 3294.6"
    using True by (simp add: LinearToSRGB_def)
  ultimately show "1 / 2 \<le> LinearToSRGB (0.9 ^ k) * 255"
    by simp
next
  case False
  have "(0.9 :: real) ^ k \<le> 1"
    by (intro power_le_one) simp_all
  with False show "1 / 2 \<le> LinearToSRGB (0.9 ^ k) * 255"
    by (intro LinearToSRGB_bright) simp_all
qed

lemma getHex_low_byte: "Color_getHex c mod 256 = channelByte (c_b c)"
proof -
  have "Color_getHex c = channelByte (c_b c) + (channelByte (c_r c) * 256 + channelByte (c_g c)) * 256"
    unfolding Color_getHex_def by simp
  then have "Color_getHex c mod 256 = channelByte (c_b c) mod 256"
    by (simp only: mod_mult_self1)
  moreover have "channelByte (c_b c) < 256"
    using channelByte_le [of "c_b c"] by simp
  ultimately show ?thesis
    by simp
qed

lemma three_fields [simp]:
  "setHex three160 = Color_setHex" "getHex three160 = Color_getHex"
  by (simp_all add: three160_def)

lemma setHex_kick: "Color_setHex 9109504 = \<lparr>c_r = kickRed, c_g = 0, c_b = 0\<rparr>"
  by (simp add: Color_setHex_def kickRed_def transfer_ends)

lemma setHex_white: "Color_setHex 16777215 = \<lparr>c_r = 1, c_g = 1, c_b = 1\<rparr>"
  by (simp add: Color_setHex_def transfer_ends)

lemma getHex_kick: "Color_getHex \<lparr>c_r = kickRed, c_g = 0, c_b = 0\<rparr> = 9109504"
proof -
  have "channelByte (kickRed + 0 * (1 - kickRed)) = 139"
    by (rule kickRed_byte) simp_all
  moreover have "channelByte 0 = 0"
    by (rule channelByte_dark) simp_all
  ultimately show ?thesis
    by (simp add: Color_getHex_def)
qed

lemma kickAhead_node:
  "emissive (soundNodes kickAhead ! 0) = \<lparr>c_r = kickRed, c_g = 0, c_b = 0\<rparr>"
  "originalEmissive (soundNodes kickAhead ! 0) = 9109504"
  by (simp_all add: kickAhead_def startGame_def placed_def placeInstrument_def page_type
      placeNode_def switchType_def Mesh_def setHex_kick getHex_kick)

lemma kickStruck_node:
  "length (soundNodes kickStruck) = 1"
  "emissive (soundNodes kickStruck ! 0) = \<lparr>c_r = 1, c_g = 1, c_b = 1\<rparr>"
  "originalEmissive (soundNodes kickStruck ! 0) = 9109504"
  "utype (soundNodes kickStruck ! 0) = ''kick''"
  "scale (soundNodes kickStruck ! 0) = \<lparr>v_x = 1.2, v_y = 1.2, v_z = 1.2\<rparr>"
proof -
  have "soundNodes kickStruck ! 0
          = triggerNode three160 (beforeDetect three160 49 (soundNodes kickAhead ! 0))"
    unfolding kickStruck_def
    by (rule fires_effect [OF _ _ _ _ kickAhead_fires]) simp_all
  then show "emissive (soundNodes kickStruck ! 0) = \<lparr>c_r = 1, c_g = 1, c_b = 1\<rparr>"
    "originalEmissive (soundNodes kickStruck ! 0) = 9109504"
    "utype (soundNodes kickStruck ! 0) = ''kick''"
    "scale (soundNodes kickStruck ! 0) = \<lparr>v_x = 1.2, v_y = 1.2, v_z = 1.2\<rparr>"
    by (simp_all add: setHex_white kickAhead_node)
  show "length (soundNodes kickStruck) = 1"
    by (simp add: kickStruck_def)
qed

lemma decayNode_emissive:
  "emissive (decayNode T n) =
     (if getHex T (emissive n) \<noteq> originalEmissive n
      then Color_lerp (emissive n) (setHex T (originalEmissive n)) 0.1 else emissive n)"
  by (simp add: decayNode_def Let_def)

lemma hot_fade:
  assumes "emissive n = \<lparr>c_r = 1, c_g = 1, c_b = 1\<rparr>" "originalEmissive n = 9109504"
  shows "k \<le> 84 \<Longrightarrow>
         emissive (((decayNode three160) ^^ k) n)
           = \<lparr>c_r = kickRed + 0.9 ^ k * (1 - kickRed), c_g = 0.9 ^ k, c_b = 0.9 ^ k\<rparr>"
proof (induction k)
  case 0
  then show ?case using assms(1) by simp
next
  case (Suc k)
  let ?m = "((decayNode three160) ^^ k) n"
  have e: "emissive ?m = \<lparr>c_r = kickRed + 0.9 ^ k * (1 - kickRed), c_g = 0.9 ^ k, c_b = 0.9 ^ k\<rparr>"
    using Suc by simp
  have "k \<le> 83"
    using Suc.prems by simp
  then have "1 \<le> channelByte (0.9 ^ k)"
    by (rule fade_green)
  then have "Color_getHex (emissive ?m) mod 256 \<noteq> 0"
    unfolding getHex_low_byte by (simp add: e)
  then have "Color_getHex (emissive ?m) \<noteq> 9109504"
    by auto
  then have "emissive (decayNode three160 ?m)
      = Color_lerp (emissive ?m) \<lparr>c_r = kickRed, c_g = 0, c_b = 0\<rparr> 0.1"
    by (simp add: decayNode_emissive assms(2) setHex_kick)
  then show ?case
    unfolding e Color_lerp_def color.select_convs lerp_step by simp
qed

lemma hot_guard:
  assumes "emissive n = \<lparr>c_r = 1, c_g = 1, c_b = 1\<rparr>" "originalEmissive n = 9109504" "k \<le> 83"
  shows "getHex three160 (emissive (((decayNode three160) ^^ k) n)) \<noteq> originalEmissive n"
proof -
  have "1 \<le> channelByte (0.9 ^ k)"
    using assms(3) by (rule fade_green)
  then have "Color_getHex (emissive (((decayNode three160) ^^ k) n)) mod 256 \<noteq> 0"
    unfolding getHex_low_byte using hot_fade [OF assms(1,2), of k] assms(3) by simp
  then show ?thesis
    unfolding assms(2) by auto
qed

lemma hot_frozen:
  "Color_getHex \<lparr>c_r = kickRed + 0.9 ^ 84 * (1 - kickRed), c_g = 0.9 ^ 84, c_b = 0.9 ^ 84\<rparr> = 9109504"
proof -
  have r: "channelByte (kickRed + 0.9 ^ 84 * (1 - kickRed)) = 139"
    by (rule kickRed_byte) simp_all
  have g: "channelByte (0.9 ^ 84) = 0"
    by (rule channelByte_dark) (use fade_bounds(2) in simp_all)
  show ?thesis
    unfolding Color_getHex_def color.select_convs r g by simp
qed

lemma kickAhead_audio [simp]:
  "audioContext kickAhead = Some []" "soundBuffers kickAhead = Map.empty"
  by (simp_all add: kickAhead_def startGame_def)

lemma kickStruck_audio [simp]:
  "audioContext kickStruck = Some []" "soundBuffers kickStruck = Map.empty"
  by (simp_all add: kickStruck_def animate_silent)

lemma kickStruck_position:
  "v_x (position (soundNodes kickStruck ! 0)) = 50"
proof -
  have "soundNodes kickStruck ! 0
          = triggerNode three160 (beforeDetect three160 49 (soundNodes kickAhead ! 0))"
    unfolding kickStruck_def
    by (rule fires_effect [OF _ _ _ _ kickAhead_fires]) simp_all
  then show ?thesis
    by simp
qed

subsection \<open>The decay law\<close>

text \<open>
  Claim C5, as the code has it. Take a state the page can reach and any run of frames,
  playing or not, in which the node is not triggered. Its emissive colour is that of the
  decay loop's body applied once per frame. The body moves the emissive colour a tenth of
  the way to the original colour only while \<open>getHex\<close> of the emissive differs from
  \<open>originalEmissive\<close>: as long as that holds at the start of each frame, the distance to
  the original colour is \<open>0.9 ^ k\<close> times what it was (in exact arithmetic); once the hex
  codes agree the colour stays as it is. The distance of the scale from \<open>1\<close> is
  \<open>0.9 ^ k\<close> times what it was, with no condition: the test of line 286 only passes over
  a scale that is \<open>1\<close> already.
\<close>

theorem decay_law:
  assumes "reachable T refs" and "i < length (soundNodes refs)"
    and "\<forall>j < length ds. \<not> fires T (ds ! j) (ticks T (take j ds) refs) i"
  shows "emissive (soundNodes (ticks T ds refs) ! i)
           = emissive (((decayNode T) ^^ length ds) (soundNodes refs ! i))
       \<and> ((\<forall>j < length ds. getHex T (emissive (((decayNode T) ^^ j) (soundNodes refs ! i)))
                              \<noteq> originalEmissive (soundNodes refs ! i))
            \<longrightarrow> glow T (soundNodes (ticks T ds refs) ! i)
                  = times3 (0.9 ^ length ds) (glow T (soundNodes refs ! i)))
       \<and> (getHex T (emissive (soundNodes refs ! i)) = originalEmissive (soundNodes refs ! i)
            \<longrightarrow> emissive (soundNodes (ticks T ds refs) ! i) = emissive (soundNodes refs ! i))
       \<and> swell (soundNodes (ticks T ds refs) ! i)
           = times3 (0.9 ^ length ds) (swell (soundNodes refs ! i))"
proof -
  let ?n = "soundNodes refs ! i"
  let ?m = "((decayNode T) ^^ length ds) ?n"
  note inv = reachable_inv [OF assms(1)]
  from inv have r: "rendering refs" ..
  from inv assms(2) have rest: "scaleAtRest ?n"
    by simp
  from quiet_frames [OF r assms(2,3)] obtain b where
    b: "soundNodes (ticks T ds refs) ! i = ?m\<lparr>hasBeenTriggered := b\<rparr>"
    by blast
  have e: "emissive (soundNodes (ticks T ds refs) ! i) = emissive ?m"
    and g: "glow T (soundNodes (ticks T ds refs) ! i) = glow T ?m"
    and w: "swell (soundNodes (ticks T ds refs) ! i) = swell ?m"
    unfolding b by simp_all
  show ?thesis
    unfolding e g w
    using decay_iter_glow [where k = "length ds" and T = T and n = ?n]
      decay_iter_frozen [where k = "length ds" and T = T and n = ?n]
      scaleAtRest_swell [OF rest, where T = T and k = "length ds"]
    by blast
qed

theorem decay_law_witness:
  "reachable three160 kickStruck
   \<and> \<not> fires three160 (page ''kick'' False) kickStruck 0
   \<and> getHex three160 (emissive (soundNodes kickStruck ! 0)) \<noteq> originalEmissive (soundNodes kickStruck ! 0)
   \<and> glow three160 (soundNodes (ticks three160 [page ''kick'' False] kickStruck) ! 0)
       = times3 (0.9 ^ 1) (glow three160 (soundNodes kickStruck ! 0))
   \<and> swell (soundNodes (ticks three160 [page ''kick'' False] kickStruck) ! 0)
       = times3 (0.9 ^ 1) (swell (soundNodes kickStruck ! 0))
   \<and> c_g (emissive (soundNodes (ticks three160 [page ''kick'' False] kickStruck) ! 0)) = 0.9
   \<and> v_x (scale (soundNodes (ticks three160 [page ''kick'' False] kickStruck) ! 0)) = 1.18
   \<and> reachable three160 kickAhead
   \<and> getHex three160 (emissive (soundNodes kickAhead ! 0)) = originalEmissive (soundNodes kickAhead ! 0)
   \<and> emissive (soundNodes (ticks three160 [page ''kick'' False] kickAhead) ! 0)
       = emissive (soundNodes kickAhead ! 0)
   \<and> scale (soundNodes (ticks three160 [page ''kick'' False] kickAhead) ! 0)
       = \<lparr>v_x = 1, v_y = 1, v_z = 1\<rparr>"
proof -
  let ?ds = "[page ''kick'' False]"
  let ?n = "soundNodes kickStruck ! 0"
  let ?m = "soundNodes (ticks three160 ?ds kickStruck) ! 0"
  let ?m' = "soundNodes (ticks three160 ?ds kickAhead) ! 0"
  have q: "\<not> fires three160 (page ''kick'' False) r 0" for r
    by (simp add: fires_def)
  have h: "0 < length (soundNodes kickStruck)"
    "\<forall>j < length ?ds. \<not> fires three160 (?ds ! j) (ticks three160 (take j ?ds) kickStruck) 0"
    by (simp_all add: kickStruck_node(1) q)
  note a = decay_law [OF reachable_kicks(2) h]
  have h': "0 < length (soundNodes kickAhead)"
    "\<forall>j < length ?ds. \<not> fires three160 (?ds ! j) (ticks three160 (take j ?ds) kickAhead) 0"
    by (simp_all add: q)
  note b = decay_law [OF reachable_kicks(1) h']
  have guard: "getHex three160 (emissive (((decayNode three160) ^^ j) ?n)) \<noteq> originalEmissive ?n"
    if "j < 1" for j
    by (rule hot_guard [OF kickStruck_node(2,3)]) (use that in simp)
  have rest: "getHex three160 (emissive (soundNodes kickAhead ! 0))
                 = originalEmissive (soundNodes kickAhead ! 0)"
    by (simp add: kickAhead_node getHex_kick)
  have g: "glow three160 ?m = times3 (0.9 ^ 1) (glow three160 ?n)"
    using a guard by simp
  have s: "swell ?m = times3 (0.9 ^ 1) (swell ?n)"
    using a by simp
  have "soundNodes (ticks three160 ?ds kickStruck) = map ((decayNode three160) ^^ length ?ds) (soundNodes kickStruck)"
    using ticks_stopped [of ?ds kickStruck three160] by (simp del: ticks.simps)
  then have "?m = ((decayNode three160) ^^ length ?ds) ?n"
    by (simp add: kickStruck_node(1) del: ticks.simps)
  then have om: "originalEmissive ?m = 9109504"
    by (simp add: kickStruck_node(3) del: ticks.simps)
  have gv: "c_g (emissive ?m) = 0.9"
    using g by (simp add: glow_def times3_def kickStruck_node setHex_kick om del: ticks.simps)
  have sv: "v_x (scale ?m) = 1.18"
    using s by (simp add: swell_def times3_def kickStruck_node del: ticks.simps)
  have e': "emissive ?m' = emissive (soundNodes kickAhead ! 0)"
    using b rest by blast
  have "swell ?m' = times3 (0.9 ^ 1) (swell (soundNodes kickAhead ! 0))"
    using b by simp
  then have s': "scale ?m' = \<lparr>v_x = 1, v_y = 1, v_z = 1\<rparr>"
    by (simp add: swell_def times3_def vector3.equality del: ticks.simps)
  show ?thesis
    using g s gv sv e' s' rest q [of kickStruck] guard [of 0] reachable_kicks
    by (simp del: ticks.simps)
qed

text \<open>
  Claim C5 as the specification words it, for the highlight: it fails. Under the
  conversion of three.js r160 the emissive colour of a struck kick has the hex code of
  the original colour, \<open>0x8B0000\<close>, when 84 frames have decayed it; the 85th frame leaves
  the colour as it is, and the highlight is not \<open>0.9 ^ 85\<close> times the flash.
\<close>

theorem flash_stops_fading:
  "emissive (soundNodes (ticks three160 (replicate 85 (page ''kick'' False)) kickStruck) ! 0)
     = emissive (soundNodes (ticks three160 (replicate 84 (page ''kick'' False)) kickStruck) ! 0)
   \<and> glow three160 (soundNodes (ticks three160 (replicate 85 (page ''kick'' False)) kickStruck) ! 0)
     \<noteq> times3 (0.9 ^ 85) (glow three160 (soundNodes kickStruck ! 0))"
proof -
  let ?n = "soundNodes kickStruck ! 0"
  let ?e84 = "\<lparr>c_r = kickRed + 0.9 ^ 84 * (1 - kickRed), c_g = 0.9 ^ 84, c_b = (0.9 :: real) ^ 84\<rparr>"
  have run: "soundNodes (ticks three160 (replicate k (page ''kick'' False)) kickStruck) ! 0
        = ((decayNode three160) ^^ k) ?n" for k
    using ticks_stopped [of "replicate k (page ''kick'' False)" kickStruck three160]
    by (simp add: kickStruck_node(1))
  have e84: "emissive (((decayNode three160) ^^ 84) ?n) = ?e84"
    by (rule hot_fade [OF kickStruck_node(2,3)]) simp
  have n85: "(85 :: nat) = Suc 84"
    by simp
  have "getHex three160 (emissive (((decayNode three160) ^^ 84) ?n))
          = originalEmissive (((decayNode three160) ^^ 84) ?n)"
    unfolding e84 by (simp only: three_fields hot_frozen decay_iter_fields kickStruck_node(3))
  then have "emissive (decayNode three160 (((decayNode three160) ^^ 84) ?n)) = ?e84"
    unfolding e84 [symmetric] by (rule decayNode_frozen)
  then have e85: "emissive (((decayNode three160) ^^ 85) ?n) = ?e84"
    unfolding n85 funpow.simps o_apply .
  have "glow three160 (((decayNode three160) ^^ 85) ?n)
          \<noteq> times3 (0.9 ^ 85) (glow three160 ?n)"
    using fade_bounds(3)
    by (simp add: glow_def times3_def e85 kickStruck_node setHex_kick)
  then show ?thesis
    unfolding run e84 e85 by simp
qed

subsection \<open>Stopped frames, value by value\<close>



subsection \<open>The sound bank\<close>

lemma triggerLoop_audio:
  "audioContext (snd (triggerLoop T p ns r)) =
     map_option
       (\<lambda>started. started @ List.map_filter (\<lambda>n. if hits p n then soundBuffers r (utype n) else None) ns)
       (audioContext r)"
proof (induction ns arbitrary: r)
  case Nil
  then show ?case
    by (simp add: option.map_ident)
next
  case (Cons n ns)
  show ?case
  proof (cases "hits p n")
    case False
    then show ?thesis
      using Cons [of r] by (simp add: Let_def)
  next
    case True
    let ?r1 = "playSound (soundBuffers r (utype n)) r"
    have "audioContext (snd (triggerLoop T p (n # ns) r)) = audioContext (snd (triggerLoop T p ns ?r1))"
      using True by (simp add: Let_def)
    also have "\<dots> = map_option
       (\<lambda>started. started @ List.map_filter (\<lambda>n. if hits p n then soundBuffers r (utype n) else None) ns)
       (audioContext ?r1)"
      unfolding Cons [of ?r1] playSound_fields ..
    finally show ?thesis
      using True
      by (cases "soundBuffers r (utype n)"; cases "audioContext r")
        (simp_all add: playSound_def)
  qed
qed

lemma map_filter_map_fun:
  "List.map_filter f (map g xs) = List.map_filter (\<lambda>x. f (g x)) xs"
  by (simp add: List.map_filter_def filter_map o_def)

lemma map_filter_nth:
  "List.map_filter (\<lambda>i. f (xs ! i)) [0..<length xs] = List.map_filter f xs"
proof -
  have "List.map_filter (\<lambda>i. f (xs ! i)) [0..<length xs]
      = List.map_filter f (map (\<lambda>i. xs ! i) [0..<length xs])"
    unfolding map_filter_map_fun ..
  also have "map (\<lambda>i. xs ! i) [0..<length xs] = xs"
    by (rule map_nth)
  finally show ?thesis .
qed

lemma animate_audio:
  "audioContext (animate T d r) = map_option (\<lambda>started. started @ dispatched T d r) (audioContext r)"
proof (cases "rendering r \<and> isGamePlaying d \<and> wandGroup r \<noteq> None")
  case False
  then have "\<not> fires T d r i" for i
    by (auto simp: fires_def)
  then have "dispatched T d r = []"
    by (simp add: dispatched_def List.map_filter_def)
  moreover have "audioContext (animate T d r) = audioContext r"
    using False by (auto simp: animate_def Let_def decayPass_def)
  ultimately show ?thesis
    by (simp add: option.map_ident)
next
  case True
  then obtain x where x: "wandGroup r = Some x" by auto
  from True have r: "rendering r" and pl: "isGamePlaying d" by simp_all
  let ?r2 = "advanceWand x (decayPass T r)"
  let ?f = "\<lambda>n. if hits (nextWand x) n then soundBuffers r (utype n) else None"
  have nodes: "soundNodes ?r2 = map (beforeDetect T x) (soundNodes r)"
    by (simp add: advanceWand_nodes decayPass_def beforeDetect_def)
  have bank: "soundBuffers ?r2 = soundBuffers r" and au: "audioContext ?r2 = audioContext r"
    by (simp_all add: advanceWand_def decayPass_def Let_def)
  have "audioContext (animate T d r) = audioContext (snd (triggerLoop T (nextWand x) (soundNodes ?r2) ?r2))"
    unfolding animate_order [OF r pl x] by (simp add: triggerPass_def advanceWand_wand Let_def)
  also have "\<dots> = map_option (\<lambda>started. started @ List.map_filter ?f (soundNodes ?r2)) (audioContext r)"
    unfolding triggerLoop_audio bank au ..
  also have "List.map_filter ?f (soundNodes ?r2)
      = List.map_filter (\<lambda>i. ?f (beforeDetect T x (soundNodes r ! i))) [0..<length (soundNodes r)]"
    unfolding nodes map_filter_map_fun
    by (rule map_filter_nth [symmetric])
  also have "\<dots> = dispatched T d r"
    unfolding dispatched_def List.map_filter_def
    by (intro arg_cong2 [where f = map] filter_cong refl map_cong)
      (simp_all add: fires_node [OF r pl x])
  finally show ?thesis .
qed

lemma fires_bank:
  "fires T d (r\<lparr>soundBuffers := bank\<rparr>) i = fires T d r i"
  by (simp add: fires_def decayPass_def advanceWand_def Let_def split: option.splits)

text \<open>
  Claim C8. \<open>playSound\<close> on an absent buffer returns the engine objects unchanged: no
  error value exists for it, nothing is stored for later. The sources a frame starts are
  the buffers the bank holds for the types of the nodes it triggers, in node order; when
  the bank holds none of them the started sources are as they were. Whatever the bank
  holds, a node the frame triggers ends it with \<open>hasBeenTriggered\<close> set and the flash
  colour, in a wrapping frame a node that is not triggered ends it with the flag clear,
  and the nodes and the wand after any run of frames are the same.
\<close>

theorem absent_sound_is_dropped:
  "(soundBuffers refs ty = None \<longrightarrow> playSound (soundBuffers refs ty) refs = refs)
   \<and> audioContext (animate T d refs)
       = map_option (\<lambda>started. started @ dispatched T d refs) (audioContext refs)
   \<and> ((\<forall>i < length (soundNodes refs).
          fires T d refs i \<longrightarrow> soundBuffers refs (utype (soundNodes refs ! i)) = None)
        \<longrightarrow> dispatched T d refs = [] \<and> audioContext (animate T d refs) = audioContext refs)
   \<and> (i < length (soundNodes refs) \<and> fires T d refs i \<longrightarrow>
        hasBeenTriggered (soundNodes (animate T d refs) ! i)
      \<and> emissive (soundNodes (animate T d refs) ! i) = setHex T 0xffffff)
   \<and> (rendering refs \<and> isGamePlaying d \<and> wandGroup refs = Some x \<and> x + 0.5 > 100
        \<and> i < length (soundNodes refs) \<and> \<not> fires T d refs i \<longrightarrow>
        \<not> hasBeenTriggered (soundNodes (animate T d refs) ! i))
   \<and> soundNodes (ticks T ds (refs\<lparr>soundBuffers := bank\<rparr>)) = soundNodes (ticks T ds refs)
   \<and> wandGroup (ticks T ds (refs\<lparr>soundBuffers := bank\<rparr>)) = wandGroup (ticks T ds refs)"
proof -
  have a: "soundBuffers refs ty = None \<longrightarrow> playSound (soundBuffers refs ty) refs = refs"
    by (simp add: playSound_def)
  have b: "audioContext (animate T d refs)
       = map_option (\<lambda>started. started @ dispatched T d refs) (audioContext refs)"
    by (rule animate_audio)
  have c: "dispatched T d refs = [] \<and> audioContext (animate T d refs) = audioContext refs"
    if h: "\<forall>i < length (soundNodes refs).
          fires T d refs i \<longrightarrow> soundBuffers refs (utype (soundNodes refs ! i)) = None"
  proof -
    have "filter (\<lambda>i. (if fires T d refs i then soundBuffers refs (utype (soundNodes refs ! i)) else None) \<noteq> None)
            [0..<length (soundNodes refs)] = []"
      using h by (simp add: filter_empty_conv)
    then have "dispatched T d refs = []"
      unfolding dispatched_def List.map_filter_def by simp
    then show ?thesis
      unfolding b by (simp add: option.map_ident)
  qed
  have e: "hasBeenTriggered (soundNodes (animate T d refs) ! i)
      \<and> emissive (soundNodes (animate T d refs) ! i) = setHex T 0xffffff"
    if i: "i < length (soundNodes refs)" and f: "fires T d refs i"
  proof -
    from f have r: "rendering refs" and pl: "isGamePlaying d"
      by (simp_all add: fires_def)
    from f obtain y where y: "wandGroup refs = Some y"
      by (cases "wandGroup refs") (simp_all add: fires_def)
    show ?thesis
      unfolding fires_effect [OF r pl y i f] by simp
  qed
  have g: "\<not> hasBeenTriggered (soundNodes (animate T d refs) ! i)"
    if r: "rendering refs" and pl: "isGamePlaying d" and x: "wandGroup refs = Some x"
      and w: "x + 0.5 > 100" and i: "i < length (soundNodes refs)" and nf: "\<not> fires T d refs i"
  proof -
    have wr: "wraps x"
      using w by (simp add: wraps_def planeSize_def)
    have "soundNodes (animate T d refs) ! i = stepNode T x (soundNodes refs ! i)"
      using animate_playing(2) [OF r pl x, of T] i by simp
    then have "hasBeenTriggered (soundNodes (animate T d refs) ! i) = near (nextWand x) (soundNodes refs ! i)"
      using wr by (simp add: stepNode_flag)
    also have "\<dots> = fires T d refs i"
      using fires_flag [OF r pl x i, of T] wr by simp
    finally show ?thesis
      using nf by simp
  qed
  have "sameEngine (refs\<lparr>soundBuffers := bank\<rparr>) refs"
    by (simp add: sameEngine_def)
  then have "sameEngine (ticks T ds (refs\<lparr>soundBuffers := bank\<rparr>)) (ticks T ds refs)"
    by (rule ticks_sameEngine)
  then have k: "soundNodes (ticks T ds (refs\<lparr>soundBuffers := bank\<rparr>)) = soundNodes (ticks T ds refs)"
    "wandGroup (ticks T ds (refs\<lparr>soundBuffers := bank\<rparr>)) = wandGroup (ticks T ds refs)"
    by (simp_all add: sameEngine_def)
  from a b c e g k show ?thesis
    by blast
qed

theorem absent_sound_is_dropped_witness:
  "soundBuffers (kickAhead\<lparr>soundBuffers := [''synth'' \<mapsto> 7]\<rparr>) ''kick'' = None
   \<and> fires three160 (page ''kick'' True) (kickAhead\<lparr>soundBuffers := [''synth'' \<mapsto> 7]\<rparr>) 0
   \<and> utype (soundNodes (kickAhead\<lparr>soundBuffers := [''synth'' \<mapsto> 7]\<rparr>) ! 0) = ''kick''
   \<and> \<not> hasBeenTriggered (soundNodes (kickAhead\<lparr>soundBuffers := [''synth'' \<mapsto> 7]\<rparr>) ! 0)
   \<and> hasBeenTriggered
       (soundNodes (animate three160 (page ''kick'' True) (kickAhead\<lparr>soundBuffers := [''synth'' \<mapsto> 7]\<rparr>)) ! 0)
   \<and> audioContext (animate three160 (page ''kick'' True) (kickAhead\<lparr>soundBuffers := [''synth'' \<mapsto> 7]\<rparr>))
       = Some []
   \<and> audioContext (animate three160 (page ''kick'' True) (kickAhead\<lparr>soundBuffers := [''kick'' \<mapsto> 7]\<rparr>))
       = Some [7]
   \<and> hasBeenTriggered (soundNodes (kickStruck\<lparr>wandGroup := Some 100\<rparr>) ! 0)
   \<and> \<not> fires three160 (page ''kick'' True) (kickStruck\<lparr>wandGroup := Some 100\<rparr>) 0
   \<and> \<not> hasBeenTriggered
       (soundNodes (animate three160 (page ''kick'' True) (kickStruck\<lparr>wandGroup := Some 100\<rparr>)) ! 0)"
proof -
  let ?d = "page ''kick'' True"
  let ?s = "kickAhead\<lparr>soundBuffers := [''synth'' \<mapsto> 7]\<rparr>"
  let ?k = "kickAhead\<lparr>soundBuffers := [''kick'' \<mapsto> 7]\<rparr>"
  let ?w = "kickStruck\<lparr>wandGroup := Some 100\<rparr>"
  have f: "fires three160 ?d ?s 0" "fires three160 ?d ?k 0"
    unfolding fires_bank by (rule kickAhead_fires)+
  have nf: "\<not> fires three160 ?d ?w 0"
    by (simp add: fires_flag [of ?w _ 100] near_iff nextWand_def wraps_def planeSize_def
        kickStruck_node kickStruck_position)
  have ds: "dispatched three160 ?d ?s = []"
    using f(1) by (simp add: dispatched_def)
  have dk: "dispatched three160 ?d ?k = [7]"
    using f(2) by (simp add: dispatched_def)
  note s = absent_sound_is_dropped [of ?s "''kick''" three160 ?d 0 49 "[]" Map.empty]
  note k = absent_sound_is_dropped [of ?k "''kick''" three160 ?d 0 49 "[]" Map.empty]
  note w = absent_sound_is_dropped [of ?w "''kick''" three160 ?d 0 100 "[]" Map.empty]
  have "hasBeenTriggered (soundNodes (animate three160 ?d ?s) ! 0)"
    using s f(1) by simp
  moreover have "audioContext (animate three160 ?d ?s) = Some []"
    using s [THEN conjunct2, THEN conjunct1] ds by simp
  moreover have "audioContext (animate three160 ?d ?k) = Some [7]"
    using k [THEN conjunct2, THEN conjunct1] dk by simp
  moreover have "\<not> hasBeenTriggered (soundNodes (animate three160 ?d ?w) ! 0)"
    using w nf by (simp add: kickStruck_node(1))
  ultimately show ?thesis
    using f(1) nf by (simp add: kickStruck_flag(2))
qed

end
